theory Spec2Isabelle
  imports Main
begin

section \<open>Python strings\<close>

text \<open>
  A Python \<open>str\<close> is a sequence of code points. The model writes it as a \<^typ>\<open>string\<close>
  and reads a \<^typ>\<open>char\<close> as the code point with the same number, so it covers the
  strings whose code points are below 256.
\<close>

definition NL :: char where
  "NL = CHR 0x0A"

definition py_isspace :: "char \<Rightarrow> bool" where
  \<comment> \<open>the code points below 256 that \<open>str.isspace\<close> accepts\<close>
  "py_isspace c =
     (let n = (of_char c :: nat)
      in (9 \<le> n \<and> n \<le> 13) \<or> (28 \<le> n \<and> n \<le> 32) \<or> n = 133 \<or> n = 160)"

definition str_strip :: "string \<Rightarrow> string" where
  \<comment> \<open>\<open>s.strip()\<close>\<close>
  "str_strip s = rev (dropWhile py_isspace (rev (dropWhile py_isspace s)))"

fun find_from :: "char \<Rightarrow> string \<Rightarrow> nat \<Rightarrow> int" where
  "find_from c [] i = -1"
| "find_from c (x # xs) i = (if x = c then int i else find_from c xs (Suc i))"

definition str_find :: "string \<Rightarrow> char \<Rightarrow> int" where
  \<comment> \<open>\<open>s.find(c)\<close> for a one-character \<open>c\<close>: the lowest index, or -1\<close>
  "str_find s c = find_from c s 0"

fun rfind_from :: "char \<Rightarrow> string \<Rightarrow> nat \<Rightarrow> int \<Rightarrow> int" where
  "rfind_from c [] i found = found"
| "rfind_from c (x # xs) i found = rfind_from c xs (Suc i) (if x = c then int i else found)"

definition str_rfind :: "string \<Rightarrow> char \<Rightarrow> int" where
  \<comment> \<open>\<open>s.rfind(c)\<close> for a one-character \<open>c\<close>: the highest index, or -1\<close>
  "str_rfind s c = rfind_from c s 0 (-1)"

definition slice_bound :: "nat \<Rightarrow> int \<Rightarrow> nat" where
  \<comment> \<open>a slice index is counted from the end when negative, then clamped to the string\<close>
  "slice_bound n i = (let j = (if i < 0 then i + int n else i) in min n (nat j))"

definition str_slice :: "string \<Rightarrow> int \<Rightarrow> int \<Rightarrow> string" where
  \<comment> \<open>\<open>s[i:j]\<close>\<close>
  "str_slice s i j =
     (let a = slice_bound (length s) i; b = slice_bound (length s) j
      in take (b - a) (drop a s))"

section \<open>JSON values as Python objects\<close>

text \<open>
  What \<open>json.loads\<close> returns: \<open>None\<close>, \<open>bool\<close>, \<open>int\<close>, \<open>float\<close>, \<open>str\<close>,
  \<open>list\<close> and \<open>dict\<close> with string keys. A \<open>dict\<close> is an association list in insertion
  order. A \<open>float\<close> is carried by what \<open>repr\<close> prints it from: \<open>nan\<close>, an infinity
  with its sign, or a finite value with its sign, the digits of its shortest decimal form
  (a number without sign; zero has the digit 0) and the place of the decimal point
  counted from the first digit (0.2 has the digit 2 and the place 0, 100.0 the digit 1 and
  the place 3, zero the place 1).
\<close>

datatype pyfloat =
    NaN
  | Inf bool           \<comment> \<open>negative?\<close>
  | Finite bool nat int   \<comment> \<open>negative?, digits, place of the decimal point\<close>

datatype json =
    JNull
  | JBool bool
  | JInt int
  | JFloat pyfloat
  | JString string
  | JArray "json list"
  | JObject "(string \<times> json) list"

datatype error =
    FileNotFoundError
  | EnvironmentError
  | HTTPRuntimeError nat string     \<comment> \<open>"Hugging Face API error (code): message"\<close>
  | URLRuntimeError string          \<comment> \<open>"Failed to reach Hugging Face API: reason"\<close>
  | TransportError string           \<comment> \<open>an exception of the transport, passed on as it is\<close>
  | UnicodeDecodeError
  | JSONDecodeError
  | UnexpectedPayload json          \<comment> \<open>ValueError "Unexpected response payload: parsed"\<close>
  | UnhandledStructure json         \<comment> \<open>ValueError "Unhandled response structure: parsed"\<close>
  | NoJSONFound string              \<comment> \<open>ValueError "Model response did not contain JSON: text"\<close>
  | AttributeError
  | TypeError
  | NotModelled                     \<comment> \<open>the text leaves the fragment of the decoder model\<close>

definition dict_get :: "(string \<times> json) list \<Rightarrow> string \<Rightarrow> json option" where
  \<comment> \<open>the value stored under a key, if any\<close>
  "dict_get d k = map_of d k"

fun dict_set :: "(string \<times> json) list \<Rightarrow> string \<Rightarrow> json \<Rightarrow> (string \<times> json) list" where
  \<comment> \<open>\<open>d[k] = v\<close>: a key already present keeps its place\<close>
  "dict_set [] k v = [(k, v)]"
| "dict_set ((k', v') # d) k v = (if k' = k then (k, v) # d else (k', v') # dict_set d k v)"

definition dict_of_pairs :: "(string \<times> json) list \<Rightarrow> (string \<times> json) list" where
  \<comment> \<open>\<open>dict(pairs)\<close>\<close>
  "dict_of_pairs ps = foldl (\<lambda>d (k, v). dict_set d k v) [] ps"

subsection \<open>\<open>str\<close>, \<open>repr\<close> and truth value\<close>

fun str_nat :: "nat \<Rightarrow> string" where
  "str_nat n =
     (if n < 10 then [char_of (48 + n)] else str_nat (n div 10) @ [char_of (48 + n mod 10)])"

declare str_nat.simps [simp del]

definition str_int :: "int \<Rightarrow> string" where
  "str_int i = (if i < 0 then CHR ''-'' # str_nat (nat (- i)) else str_nat (nat i))"

definition pad2 :: "nat \<Rightarrow> string" where
  \<comment> \<open>at least two digits\<close>
  "pad2 n = (if n < 10 then CHR ''0'' # str_nat n else str_nat n)"

definition exponent_repr :: "string \<Rightarrow> int \<Rightarrow> string" where
  \<comment> \<open>one digit, the others after a point if there are any, and the exponent with its
      sign and at least two digits\<close>
  "exponent_repr digits e =
     take 1 digits @ (if 1 < length digits then ''.'' @ drop 1 digits else [])
     @ ''e'' @ (if e < 0 then ''-'' else ''+'') @ pad2 (nat \<bar>e\<bar>)"

definition finite_repr :: "string \<Rightarrow> int \<Rightarrow> string" where
  \<comment> \<open>\<open>repr\<close> of a finite float without its sign: with an exponent when the point is
      at -4 or before, or after place 16; else with the point in its place, and \<open>.0\<close>
      after a whole number\<close>
  "finite_repr digits point =
     (if point \<le> -4 \<or> 16 < point then exponent_repr digits (point - 1)
      else if point \<le> 0 then ''0.'' @ replicate (nat (- point)) (CHR ''0'') @ digits
      else if int (length digits) \<le> point
        then digits @ replicate (nat (point - int (length digits))) (CHR ''0'') @ ''.0''
      else take (nat point) digits @ ''.'' @ drop (nat point) digits)"

definition float_repr :: "pyfloat \<Rightarrow> string" where
  \<comment> \<open>\<open>repr(x)\<close>, which is also \<open>str(x)\<close>, of a float\<close>
  "float_repr x =
     (case x of
        NaN \<Rightarrow> ''nan''
      | Inf negative \<Rightarrow> (if negative then ''-inf'' else ''inf'')
      | Finite negative digits point \<Rightarrow>
          (if negative then ''-'' else []) @ finite_repr (str_nat digits) point)"

definition hex_char :: "nat \<Rightarrow> char" where
  "hex_char d = (if d < 10 then char_of (48 + d) else char_of (87 + d))"

definition DQ :: char where
  "DQ = CHR 0x22"

definition SQ :: char where
  "SQ = CHR 0x27"

definition BS :: char where
  "BS = CHR 0x5C"

definition py_isprintable :: "char \<Rightarrow> bool" where
  \<comment> \<open>the code points below 256 that \<open>repr\<close> prints as they are\<close>
  "py_isprintable c =
     (let n = (of_char c :: nat) in (32 \<le> n \<and> n < 127) \<or> (161 \<le> n \<and> n \<noteq> 173))"

definition repr_char :: "char \<Rightarrow> char \<Rightarrow> string" where
  "repr_char quote c =
     (if c = quote \<or> c = BS then [BS, c]
      else if c = CHR 0x09 then [BS, CHR ''t'']
      else if c = CHR 0x0A then [BS, CHR ''n'']
      else if c = CHR 0x0D then [BS, CHR ''r'']
      else if py_isprintable c then [c]
      else [BS, CHR ''x'', hex_char (of_char c div 16), hex_char (of_char c mod 16)])"

definition str_repr :: "string \<Rightarrow> string" where
  \<comment> \<open>\<open>repr(s)\<close>: single quotes, unless the string has a single quote and no double one\<close>
  "str_repr s =
     (let quote = (if SQ \<in> set s \<and> DQ \<notin> set s then DQ else SQ)
      in quote # concat (map (repr_char quote) s) @ [quote])"

fun str_join :: "string \<Rightarrow> string list \<Rightarrow> string" where
  "str_join sep [] = []"
| "str_join sep [x] = x"
| "str_join sep (x # y # ys) = x @ sep @ str_join sep (y # ys)"

fun py_repr :: "json \<Rightarrow> string" where
  "py_repr JNull = ''None''"
| "py_repr (JBool b) = (if b then ''True'' else ''False'')"
| "py_repr (JInt i) = str_int i"
| "py_repr (JFloat x) = float_repr x"
| "py_repr (JString s) = str_repr s"
| "py_repr (JArray xs) = ''['' @ str_join '', '' (map py_repr xs) @ '']''"
| "py_repr (JObject d) =
     ''{'' @ str_join '', '' (map (\<lambda>(k, v). str_repr k @ '': '' @ py_repr v) d) @ ''}''"

definition py_str :: "json \<Rightarrow> string" where
  \<comment> \<open>\<open>str(v)\<close>\<close>
  "py_str v = (case v of JString s \<Rightarrow> s | _ \<Rightarrow> py_repr v)"

fun py_bool :: "json \<Rightarrow> bool" where
  \<comment> \<open>the truth value that \<open>if\<close>, \<open>not\<close> and \<open>or\<close> test\<close>
  "py_bool JNull = False"
| "py_bool (JBool b) = b"
| "py_bool (JInt i) = (i \<noteq> 0)"
| "py_bool (JFloat x) = (case x of Finite negative digits point \<Rightarrow> digits \<noteq> 0 | _ \<Rightarrow> True)"
| "py_bool (JString s) = (s \<noteq> [])"
| "py_bool (JArray xs) = (xs \<noteq> [])"
| "py_bool (JObject d) = (d \<noteq> [])"

section \<open>The decoder of the standard library\<close>

text \<open>
  \<open>json.loads\<close> is a parameter of the functions below. \<open>json_loads\<close> is a model of it for
  running them on concrete texts: objects, arrays, strings with their escapes, integers
  and the literals. A number with a fraction or an exponent, and an escape for a code
  point from 256 on, leave the fragment: the model answers \<open>NotModelled\<close>.
  The recursion is bounded by fuel; \<open>json_loads\<close> gives two units a character.
\<close>

definition is_ws :: "char \<Rightarrow> bool" where
  "is_ws c = (c = CHR '' '' \<or> c = CHR 0x09 \<or> c = CHR 0x0A \<or> c = CHR 0x0D)"

definition skip_ws :: "string \<Rightarrow> string" where
  "skip_ws s = dropWhile is_ws s"

definition is_digit :: "char \<Rightarrow> bool" where
  "is_digit c = (48 \<le> (of_char c :: nat) \<and> (of_char c :: nat) \<le> 57)"

definition hex_value :: "char \<Rightarrow> nat option" where
  "hex_value c =
     (let n = (of_char c :: nat)
      in if 48 \<le> n \<and> n \<le> 57 then Some (n - 48)
         else if 97 \<le> n \<and> n \<le> 102 then Some (n - 87)
         else if 65 \<le> n \<and> n \<le> 70 then Some (n - 55)
         else None)"

definition decode_uXXXX :: "char \<Rightarrow> char \<Rightarrow> char \<Rightarrow> char \<Rightarrow> nat option" where
  "decode_uXXXX a b c d =
     (case (hex_value a, hex_value b, hex_value c, hex_value d) of
        (Some p, Some q, Some r, Some s) \<Rightarrow> Some (((p * 16 + q) * 16 + r) * 16 + s)
      | _ \<Rightarrow> None)"

definition BACKSLASH :: "char \<Rightarrow> char option" where
  "BACKSLASH e =
     (if e = DQ then Some DQ
      else if e = BS then Some BS
      else if e = CHR ''/'' then Some (CHR ''/'')
      else if e = CHR ''b'' then Some (CHR 0x08)
      else if e = CHR ''f'' then Some (CHR 0x0C)
      else if e = CHR ''n'' then Some (CHR 0x0A)
      else if e = CHR ''r'' then Some (CHR 0x0D)
      else if e = CHR ''t'' then Some (CHR 0x09)
      else None)"

definition prepend :: "char \<Rightarrow> error + string \<times> string \<Rightarrow> error + string \<times> string" where
  "prepend c r = (case r of Inl e \<Rightarrow> Inl e | Inr (s, rest) \<Rightarrow> Inr (c # s, rest))"

fun scanstring :: "string \<Rightarrow> error + string \<times> string" where
  \<comment> \<open>from the character after the opening quote: the string and the text after it\<close>
  "scanstring [] = Inl JSONDecodeError"
| "scanstring (c # cs) =
     (if c = DQ then Inr ([], cs)
      else if c = BS then
        (case cs of
           [] \<Rightarrow> Inl JSONDecodeError
         | e # r \<Rightarrow>
             if e = CHR ''u'' then
               (case r of
                  h1 # h2 # h3 # h4 # r' \<Rightarrow>
                    (case decode_uXXXX h1 h2 h3 h4 of
                       None \<Rightarrow> Inl JSONDecodeError
                     | Some n \<Rightarrow> if n < 256 then prepend (char_of n) (scanstring r')
                                else Inl NotModelled)
                | _ \<Rightarrow> Inl JSONDecodeError)
             else
               (case BACKSLASH e of
                  None \<Rightarrow> Inl JSONDecodeError
                | Some ch \<Rightarrow> prepend ch (scanstring r)))
      else if (of_char c :: nat) < 32 then Inl JSONDecodeError
      else prepend c (scanstring cs))"

definition digits_value :: "string \<Rightarrow> nat" where
  "digits_value ds = foldl (\<lambda>acc d. acc * 10 + (of_char d - 48)) 0 ds"

definition float_tail :: "string \<Rightarrow> bool" where
  \<comment> \<open>a fraction \<open>.d\<close> or an exponent \<open>e d\<close>, \<open>e+d\<close>, \<open>e-d\<close> follows\<close>
  "float_tail s =
     (case s of
        [] \<Rightarrow> False
      | c # r \<Rightarrow>
          if c = CHR ''.'' then (case r of [] \<Rightarrow> False | d # _ \<Rightarrow> is_digit d)
          else if c = CHR ''e'' \<or> c = CHR ''E'' then
            (case r of
               [] \<Rightarrow> False
             | x # r' \<Rightarrow>
                 if x = CHR ''+'' \<or> x = CHR ''-'' then (case r' of [] \<Rightarrow> False | d # _ \<Rightarrow> is_digit d)
                 else is_digit x)
          else False)"

definition match_number :: "string \<Rightarrow> (error + json \<times> string) option" where
  \<comment> \<open>\<open>NUMBER_RE\<close>: an optional minus, then 0 or a digit string without leading zero\<close>
  "match_number s =
     (let neg = (s \<noteq> [] \<and> hd s = CHR ''-'');
          s1 = (if neg then tl s else s)
      in case s1 of
           [] \<Rightarrow> None
         | d # r \<Rightarrow>
             if \<not> is_digit d then None
             else
               let ds = (if d = CHR ''0'' then [d] else d # takeWhile is_digit r);
                   rest = (if d = CHR ''0'' then r else dropWhile is_digit r)
               in if float_tail rest then Some (Inl NotModelled)
                  else Some (Inr (JInt ((if neg then -1 else 1) * int (digits_value ds)), rest)))"

fun scan_once :: "nat \<Rightarrow> string \<Rightarrow> error + json \<times> string"
  and JSONArray :: "nat \<Rightarrow> string \<Rightarrow> error + json list \<times> string"
  and JSONObject :: "nat \<Rightarrow> string \<Rightarrow> error + (string \<times> json) list \<times> string"
where
  "scan_once 0 s = Inl NotModelled"
| "scan_once (Suc n) s =
     (case s of
        [] \<Rightarrow> Inl JSONDecodeError
      | c # r \<Rightarrow>
          if c = DQ then
            (case scanstring r of Inl e \<Rightarrow> Inl e | Inr (str, rest) \<Rightarrow> Inr (JString str, rest))
          else if c = CHR ''{'' then
            (case skip_ws r of
               [] \<Rightarrow> Inl JSONDecodeError
             | d # r' \<Rightarrow>
                 if d = CHR ''}'' then Inr (JObject [], r')
                 else if d = DQ then
                   (case JSONObject n r' of
                      Inl e \<Rightarrow> Inl e
                    | Inr (pairs, rest) \<Rightarrow> Inr (JObject (dict_of_pairs pairs), rest))
                 else Inl JSONDecodeError)
          else if c = CHR ''['' then
            (case skip_ws r of
               [] \<Rightarrow> Inl JSONDecodeError
             | d # r' \<Rightarrow>
                 if d = CHR '']'' then Inr (JArray [], r')
                 else
                   (case JSONArray n (d # r') of
                      Inl e \<Rightarrow> Inl e
                    | Inr (values, rest) \<Rightarrow> Inr (JArray values, rest)))
          else if take 4 s = ''null'' then Inr (JNull, drop 4 s)
          else if take 4 s = ''true'' then Inr (JBool True, drop 4 s)
          else if take 5 s = ''false'' then Inr (JBool False, drop 5 s)
          else
            (case match_number s of
               Some m \<Rightarrow> m
             | None \<Rightarrow>
                 if take 3 s = ''NaN'' then Inr (JFloat NaN, drop 3 s)
                 else if take 8 s = ''Infinity'' then Inr (JFloat (Inf False), drop 8 s)
                 else if take 9 s = ''-Infinity'' then Inr (JFloat (Inf True), drop 9 s)
                 else Inl JSONDecodeError))"
| "JSONArray 0 s = Inl NotModelled"
| "JSONArray (Suc n) s =
     (case scan_once n s of
        Inl e \<Rightarrow> Inl e
      | Inr (v, r) \<Rightarrow>
          (case skip_ws r of
             [] \<Rightarrow> Inl JSONDecodeError
           | c # r' \<Rightarrow>
               if c = CHR '']'' then Inr ([v], r')
               else if c = CHR '','' then
                 (case JSONArray n (skip_ws r') of
                    Inl e \<Rightarrow> Inl e
                  | Inr (vs, rest) \<Rightarrow> Inr (v # vs, rest))
               else Inl JSONDecodeError))"
| "JSONObject 0 s = Inl NotModelled"
| "JSONObject (Suc n) s =
     (case scanstring s of
        Inl e \<Rightarrow> Inl e
      | Inr (key, r) \<Rightarrow>
          (case skip_ws r of
             [] \<Rightarrow> Inl JSONDecodeError
           | c # r1 \<Rightarrow>
               if c \<noteq> CHR '':'' then Inl JSONDecodeError
               else
                 (case scan_once n (skip_ws r1) of
                    Inl e \<Rightarrow> Inl e
                  | Inr (v, r2) \<Rightarrow>
                      (case skip_ws r2 of
                         [] \<Rightarrow> Inl JSONDecodeError
                       | c' # r3 \<Rightarrow>
                           if c' = CHR ''}'' then Inr ([(key, v)], r3)
                           else if c' = CHR '','' then
                             (case skip_ws r3 of
                                [] \<Rightarrow> Inl JSONDecodeError
                              | q # r4 \<Rightarrow>
                                  if q \<noteq> DQ then Inl JSONDecodeError
                                  else
                                    (case JSONObject n r4 of
                                       Inl e \<Rightarrow> Inl e
                                     | Inr (pairs, rest) \<Rightarrow> Inr ((key, v) # pairs, rest)))
                           else Inl JSONDecodeError))))"

definition json_loads :: "string \<Rightarrow> error + json" where
  "json_loads s =
     (case scan_once (Suc (Suc (length s + length s))) (skip_ws s) of
        Inl e \<Rightarrow> Inl e
      | Inr (v, rest) \<Rightarrow> if skip_ws rest = [] then Inr v else Inl JSONDecodeError)"

section \<open>The response extractor\<close>

text \<open>
  \<open>extract_json_block\<close>, lines 103 to 109. \<open>json.loads\<close> belongs to the standard
  library and is a parameter \<open>loads\<close> of the model.
\<close>

definition extract_json_block :: "(string \<Rightarrow> error + json) \<Rightarrow> string \<Rightarrow> error + json" where
  "extract_json_block loads text =
     (let start = str_find text (CHR ''{'');
          end = str_rfind text (CHR ''}'')
      in if start = -1 \<or> end = -1 \<or> end \<le> start then Inl (NoJSONFound text)
         else let snippet = str_slice text start (end + 1) in loads snippet)"

definition echo_loads :: "string \<Rightarrow> error + json" where
  \<comment> \<open>a decoder that hands back the text it is given: it shows the snippet that is decoded\<close>
  "echo_loads snippet = Inr (JString snippet)"

section \<open>The encoder of the standard library\<close>

text \<open>
  \<open>json.dumps\<close> with its defaults (\<open>ensure_ascii\<close>, separators) and an optional
  \<open>indent\<close>. Outside the printable ASCII range a character is written as an escape.
\<close>

definition encode_char :: "char \<Rightarrow> string" where
  "encode_char c =
     (if c = BS then [BS, BS]
      else if c = DQ then [BS, DQ]
      else if c = CHR 0x08 then [BS, CHR ''b'']
      else if c = CHR 0x0C then [BS, CHR ''f'']
      else if c = CHR 0x0A then [BS, CHR ''n'']
      else if c = CHR 0x0D then [BS, CHR ''r'']
      else if c = CHR 0x09 then [BS, CHR ''t'']
      else if 32 \<le> (of_char c :: nat) \<and> (of_char c :: nat) \<le> 126 then [c]
      else [BS, CHR ''u'', CHR ''0'', CHR ''0'',
            hex_char (of_char c div 16), hex_char (of_char c mod 16)])"

definition encode_basestring_ascii :: "string \<Rightarrow> string" where
  "encode_basestring_ascii s = DQ # concat (map encode_char s) @ [DQ]"

definition floatstr :: "pyfloat \<Rightarrow> string" where
  "floatstr x =
     (case x of
        NaN \<Rightarrow> ''NaN''
      | Inf negative \<Rightarrow> (if negative then ''-Infinity'' else ''Infinity'')
      | Finite negative digits point \<Rightarrow> float_repr x)"

definition newline_indent :: "nat \<Rightarrow> nat \<Rightarrow> string" where
  "newline_indent indent level = NL # replicate (indent * level) (CHR '' '')"

fun iterencode :: "nat option \<Rightarrow> nat \<Rightarrow> json \<Rightarrow> string" where
  "iterencode ind level JNull = ''null''"
| "iterencode ind level (JBool b) = (if b then ''true'' else ''false'')"
| "iterencode ind level (JInt i) = str_int i"
| "iterencode ind level (JFloat x) = floatstr x"
| "iterencode ind level (JString s) = encode_basestring_ascii s"
| "iterencode ind level (JArray xs) =
     (if xs = [] then ''[]''
      else case ind of
             None \<Rightarrow> ''['' @ str_join '', '' (map (iterencode ind level) xs) @ '']''
           | Some k \<Rightarrow>
               ''['' @ newline_indent k (Suc level)
               @ str_join ('','' @ newline_indent k (Suc level))
                   (map (iterencode ind (Suc level)) xs)
               @ newline_indent k level @ '']'')"
| "iterencode ind level (JObject d) =
     (if d = [] then ''{}''
      else case ind of
             None \<Rightarrow>
               ''{''
               @ str_join '', ''
                   (map (\<lambda>(k, v). encode_basestring_ascii k @ '': '' @ iterencode ind level v) d)
               @ ''}''
           | Some n \<Rightarrow>
               ''{'' @ newline_indent n (Suc level)
               @ str_join ('','' @ newline_indent n (Suc level))
                   (map (\<lambda>(k, v). encode_basestring_ascii k @ '': ''
                                   @ iterencode ind (Suc level) v) d)
               @ newline_indent n level @ ''}'')"

definition json_dumps :: "nat option \<Rightarrow> json \<Rightarrow> string" where
  \<comment> \<open>\<open>json.dumps(obj, indent=ind)\<close>\<close>
  "json_dumps ind obj = iterencode ind 0 obj"

section \<open>\<open>textwrap.dedent\<close>\<close>

text \<open>
  The standard library's \<open>dedent\<close>: a line of blanks and tabs only becomes empty, then
  the longest run of blanks and tabs that starts every other non-empty line is removed
  from each line. Lines end at a newline character only.
\<close>

fun split_on :: "char \<Rightarrow> string \<Rightarrow> string list" where
  \<comment> \<open>\<open>s.split(c)\<close>\<close>
  "split_on c [] = [[]]"
| "split_on c (x # xs) =
     (if x = c then [] # split_on c xs
      else case split_on c xs of [] \<Rightarrow> [[x]] | l # ls \<Rightarrow> (x # l) # ls)"

definition blank :: "char \<Rightarrow> bool" where
  "blank c = (c = CHR '' '' \<or> c = CHR 0x09)"

definition whitespace_only_sub :: "string \<Rightarrow> string" where
  \<comment> \<open>\<open>_whitespace_only_re.sub('', line)\<close> on one line\<close>
  "whitespace_only_sub l = (if dropWhile blank l = [] then [] else l)"

fun common_prefix :: "string \<Rightarrow> string \<Rightarrow> string" where
  "common_prefix (x # xs) (y # ys) = (if x = y then x # common_prefix xs ys else [])"
| "common_prefix xs ys = []"

definition startswith :: "string \<Rightarrow> string \<Rightarrow> bool" where
  \<comment> \<open>\<open>s.startswith(p)\<close>\<close>
  "startswith s p = (take (length p) s = p)"

definition next_margin :: "string \<Rightarrow> string \<Rightarrow> string" where
  \<comment> \<open>one turn of the loop over the indents, once a margin is there\<close>
  "next_margin margin indent =
     (if startswith indent margin then margin
      else if startswith margin indent then indent
      else common_prefix margin indent)"

definition remove_margin :: "string \<Rightarrow> string \<Rightarrow> string" where
  "remove_margin margin l = (if startswith l margin then drop (length margin) l else l)"

definition dedent :: "string \<Rightarrow> string" where
  "dedent text =
     (let lines = map whitespace_only_sub (split_on NL text);
          indents = map (takeWhile blank) (filter (\<lambda>l. l \<noteq> []) lines);
          margin = (case indents of [] \<Rightarrow> [] | i # is \<Rightarrow> foldl next_margin i is)
      in str_join [NL] (if margin \<noteq> [] then map (remove_margin margin) lines else lines))"

section \<open>Configuration\<close>

record lens_spec =
  spec_title :: string
  spec_instruction :: string
  spec_recommended_terms :: "string list"
  spec_source_notes :: "string list option"   \<comment> \<open>no lens of the table has the key\<close>

definition HF_DEFAULT_MODEL :: string where
  "HF_DEFAULT_MODEL = ''mistralai/Mistral-7B-Instruct-v0.3''"

definition LENSES :: "(string \<times> lens_spec) list" where
  "LENSES =
     [(''ai-privacy'',
       \<lparr>spec_title = ''AI + privacy'',
        spec_instruction =
          ''Summarise how George Larson applies AI while protecting privacy and regulated data. ''
          @ ''Focus on applied systems, leadership signals, and measurable outcomes. ''
          @ ''Return bullet points that show real projects, not generic traits.'',
        spec_recommended_terms = [''privacy'', ''AI'', ''OCR'', ''security'', ''tabletop''],
        spec_source_notes = None\<rparr>),
      (''manufacturing-ops'',
       \<lparr>spec_title = ''Manufacturing operations'',
        spec_instruction =
          ''Summarise George Larson's experience with manufacturing, firmware, and production systems. ''
          @ ''Highlight uptime improvements, hardware labs, and PLC or robotics work.'',
        spec_recommended_terms = [''manufacturing'', ''TiVo'', ''PLC'', ''conveyors'', ''uptime''],
        spec_source_notes = None\<rparr>),
      (''technology-leadership'',
       \<lparr>spec_title = ''Technology leadership'',
        spec_instruction =
          ''Summarise George Larson's leadership style. ''
          @ ''Cover roadmaps, mixed teams, communication, and how he balances hands-on work with management.'',
        spec_recommended_terms = [''roadmap'', ''team'', ''Agile'', ''mentorship'', ''leadership''],
        spec_source_notes = None\<rparr>)]"

section \<open>The world the program runs in\<close>

record request =
  req_url :: string
  req_data :: string
  req_headers :: "(string \<times> string) list"
  req_method :: string

datatype http_reply =
    Reply "string option"     \<comment> \<open>the body read: its text, or \<open>None\<close> when the bytes are not UTF-8\<close>
  | HTTPError nat string      \<comment> \<open>status code and body\<close>
  | URLError string           \<comment> \<open>reason\<close>
  | Uncaught string           \<comment> \<open>an exception the client has no handler for (a timeout or a
                                  reset connection while the body is read): its name\<close>

record datetime =
  year :: nat
  month :: nat
  day :: nat
  hour :: nat
  minute :: nat
  second :: nat

record world =
  root :: string                                \<comment> \<open>\<open>ROOT\<close>, the directory above the script's\<close>
  environ :: "string \<Rightarrow> string option"
  resume_file :: "string option"                \<comment> \<open>the text of \<open>resume.txt\<close>, if the file is there\<close>
  data_dir :: bool                              \<comment> \<open>the directory \<open>data\<close> exists\<close>
  output_file :: "string option"                \<comment> \<open>the text of \<open>data/resume_lenses.json\<close>\<close>
  endpoint :: "request \<Rightarrow> http_reply"          \<comment> \<open>what \<open>urlopen\<close> meets\<close>
  requests :: "request list"                    \<comment> \<open>the requests sent so far\<close>
  utcnow :: datetime
  stdout :: "string list"

definition strftime :: "datetime \<Rightarrow> string" where
  \<comment> \<open>the format \<open>%Y-%m-%dT%H:%M:%SZ\<close>\<close>
  "strftime t =
     str_nat (year t) @ ''-'' @ pad2 (month t) @ ''-'' @ pad2 (day t) @ ''T''
     @ pad2 (hour t) @ '':'' @ pad2 (minute t) @ '':'' @ pad2 (second t) @ ''Z''"

section \<open>The program\<close>

definition load_resume :: "world \<Rightarrow> error + string" where
  "load_resume w = (case resume_file w of None \<Rightarrow> Inl FileNotFoundError | Some t \<Rightarrow> Inr t)"

definition select_generated_text :: "json \<Rightarrow> error + json" where
  \<comment> \<open>lines 93 to 100 of \<open>call_hugging_face\<close>, on the decoded body\<close>
  "select_generated_text parsed =
     (case parsed of
        JArray (first # others) \<Rightarrow>
          (case first of
             JObject d \<Rightarrow>
               let generated = (case dict_get d ''generated_text'' of
                                  None \<Rightarrow> JString [] | Some v \<Rightarrow> v)
               in if \<not> py_bool generated then Inl (UnexpectedPayload parsed)
                  else Inr generated
           | _ \<Rightarrow> Inl AttributeError)
      | JObject d \<Rightarrow>
          (case dict_get d ''generated_text'' of
             Some v \<Rightarrow> Inr (JString (py_str v))
           | None \<Rightarrow> Inl (UnhandledStructure parsed))
      | _ \<Rightarrow> Inl (UnhandledStructure parsed))"

definition get_token :: "world \<Rightarrow> string option" where
  \<comment> \<open>line 62: \<open>os.environ.get("HF_API_TOKEN") or os.environ.get("HF_TOKEN")\<close>\<close>
  "get_token w =
     (let first = environ w ''HF_API_TOKEN''
      in if first \<noteq> None \<and> first \<noteq> Some [] then first else environ w ''HF_TOKEN'')"

definition build_request :: "string \<Rightarrow> string \<Rightarrow> world \<Rightarrow> request" where
  \<comment> \<open>lines 67 to 82: the \<open>Request\<close> for a prompt and a token\<close>
  "build_request prompt token w =
     (let model = (case environ w ''HF_MODEL'' of None \<Rightarrow> HF_DEFAULT_MODEL | Some m \<Rightarrow> m);
          url = ''https://api-inference.huggingface.co/models/'' @ model;
          payload = JObject
            [(''inputs'', JString prompt),
             (''parameters'', JObject
                [(''max_new_tokens'', JInt 320),
                 (''temperature'', JFloat (Finite False 2 0)),
                 (''return_full_text'', JBool False)])];
          data = json_dumps None payload;
          headers = [(''Authorization'', ''Bearer '' @ token),
                     (''Content-Type'', ''application/json'')]
      in \<lparr>req_url = url, req_data = data, req_headers = headers, req_method = ''POST''\<rparr>)"

definition call_hugging_face ::
  "(string \<Rightarrow> error + json) \<Rightarrow> string \<Rightarrow> world \<Rightarrow> (error + json) \<times> world" where
  "call_hugging_face loads prompt w =
     (case get_token w of
        None \<Rightarrow> (Inl EnvironmentError, w)
      | Some token \<Rightarrow>
          if token = [] then (Inl EnvironmentError, w)
          else
            let req = build_request prompt token w;
                w' = w\<lparr>requests := requests w @ [req]\<rparr>
            in (case endpoint w req of
                  HTTPError code message \<Rightarrow> (Inl (HTTPRuntimeError code message), w')
                | URLError reason \<Rightarrow> (Inl (URLRuntimeError reason), w')
                | Uncaught name \<Rightarrow> (Inl (TransportError name), w')
                | Reply body \<Rightarrow>
                    (case body of
                       None \<Rightarrow> (Inl UnicodeDecodeError, w')
                     | Some text \<Rightarrow>
                         (case loads text of
                            Inl e \<Rightarrow> (Inl e, w')
                          | Inr parsed \<Rightarrow> (select_generated_text parsed, w')))))"

definition indent12 :: string where
  \<comment> \<open>the twelve blanks before each line of the template in the source\<close>
  "indent12 = replicate 12 (CHR '' '')"

definition prompt_template :: "string \<Rightarrow> string \<Rightarrow> string" where
  \<comment> \<open>the f-string of lines 116 to 135, with the two values put in\<close>
  \<open>prompt_template resume_text instruction =
     str_join [NL]
       ['''',
        indent12 @ ''System:'',
        indent12 @ ''You generate concise JSON summaries for professional r'' @ [CHR 0xE9]
          @ ''sum'' @ [CHR 0xE9] @ ''s. Do not include commentary outside JSON.'',
        '''',
        indent12 @ ''Resume:'',
        indent12 @ resume_text,
        '''',
        indent12 @ ''Instruction:'',
        indent12 @ instruction,
        '''',
        indent12 @ ''Format:'',
        indent12 @ ''{'',
        indent12 @ ''  "summary": "<80-120 word paragraph>",'',
        indent12 @ ''  "bullets": ['',
        indent12 @ ''    "bullet one",'',
        indent12 @ ''    "bullet two",'',
        indent12 @ ''    "bullet three"'',
        indent12 @ ''  ]'',
        indent12 @ ''}'',
        indent12]\<close>

definition build_prompt :: "string \<Rightarrow> string \<Rightarrow> string" where
  \<comment> \<open>\<open>dedent(f"""...""").strip()\<close>, lines 115 to 136\<close>
  "build_prompt resume_text instruction =
     str_strip (dedent (prompt_template resume_text instruction))"

record lens_result =
  lens_id :: string
  title :: string
  summary :: string
  key_points :: "string list"
  recommended_terms :: "string list"
  source_notes :: "string list"

definition py_iter :: "json \<Rightarrow> error + json list" where
  \<comment> \<open>the items a \<open>for\<close> loop draws from a value: a string gives its characters, a
      \<open>dict\<close> its keys, and a value that is no container cannot be iterated\<close>
  "py_iter v =
     (case v of
        JArray xs \<Rightarrow> Inr xs
      | JString s \<Rightarrow> Inr (map (\<lambda>c. JString [c]) s)
      | JObject d \<Rightarrow> Inr (map (\<lambda>kv. JString (fst kv)) d)
      | _ \<Rightarrow> Inl TypeError)"

definition assemble_section :: "string \<Rightarrow> lens_spec \<Rightarrow> json \<Rightarrow> error + lens_result" where
  \<comment> \<open>lines 139 to 150: from the extracted payload to the entry of \<open>sections\<close>\<close>
  "assemble_section lid spec payload =
     (case payload of
        JObject d \<Rightarrow>
          let summary_text =
                str_strip (py_str (case dict_get d ''summary'' of
                                     None \<Rightarrow> JString [] | Some v \<Rightarrow> v))
          in (case py_iter (case dict_get d ''bullets'' of None \<Rightarrow> JArray [] | Some v \<Rightarrow> v) of
                Inl e \<Rightarrow> Inl e
              | Inr items \<Rightarrow>
                  let bullets = map (\<lambda>item. str_strip (py_str item))
                                  (filter (\<lambda>item. str_strip (py_str item) \<noteq> []) items)
                  in Inr \<lparr>lens_id = lid,
                          title = spec_title spec,
                          summary = summary_text,
                          key_points = take 3 bullets,
                          recommended_terms = spec_recommended_terms spec,
                          source_notes = (case spec_source_notes spec of
                                            None \<Rightarrow> [] | Some notes \<Rightarrow> notes)\<rparr>)
      | _ \<Rightarrow> Inl AttributeError)"

definition generate_section ::
  "(string \<Rightarrow> error + json) \<Rightarrow> string \<Rightarrow> string \<times> lens_spec \<Rightarrow> world
     \<Rightarrow> (error + lens_result) \<times> world" where
  \<comment> \<open>one turn of the loop of \<open>generate_sections\<close>, lines 115 to 150\<close>
  "generate_section loads resume_text lens w =
     (let prompt = build_prompt resume_text (spec_instruction (snd lens))
      in case call_hugging_face loads prompt w of
           (Inl e, w') \<Rightarrow> (Inl e, w')
         | (Inr raw_output, w') \<Rightarrow>
             (case raw_output of
                JString text \<Rightarrow>
                  (case extract_json_block loads text of
                     Inl e \<Rightarrow> (Inl e, w')
                   | Inr payload \<Rightarrow> (assemble_section (fst lens) (snd lens) payload, w'))
              | _ \<Rightarrow> (Inl AttributeError, w')))"

fun sections_loop ::
  "(string \<Rightarrow> error + json) \<Rightarrow> string \<Rightarrow> (string \<times> lens_spec) list \<Rightarrow> world
     \<Rightarrow> (error + lens_result list) \<times> world" where
  "sections_loop loads resume_text [] w = (Inr [], w)"
| "sections_loop loads resume_text (lens # rest) w =
     (case generate_section loads resume_text lens w of
        (Inl e, w') \<Rightarrow> (Inl e, w')
      | (Inr section, w') \<Rightarrow>
          (case sections_loop loads resume_text rest w' of
             (Inl e, w'') \<Rightarrow> (Inl e, w'')
           | (Inr sections, w'') \<Rightarrow> (Inr (section # sections), w'')))"

definition generate_sections ::
  "(string \<Rightarrow> error + json) \<Rightarrow> string \<Rightarrow> world \<Rightarrow> (error + lens_result list) \<times> world" where
  "generate_sections loads resume_text w = sections_loop loads resume_text LENSES w"

definition section_json :: "lens_result \<Rightarrow> json" where
  \<comment> \<open>the \<open>dict\<close> appended to \<open>sections\<close>\<close>
  "section_json r =
     JObject
       [(''id'', JString (lens_id r)),
        (''title'', JString (title r)),
        (''summary'', JString (summary r)),
        (''key_points'', JArray (map JString (key_points r))),
        (''recommended_terms'', JArray (map JString (recommended_terms r))),
        (''source_notes'', JArray (map JString (source_notes r)))]"

definition output_document :: "string \<Rightarrow> lens_result list \<Rightarrow> json" where
  \<comment> \<open>\<open>payload\<close> of \<open>main\<close>\<close>
  "output_document generated_at sections =
     JObject
       [(''generated_at'', JString generated_at),
        (''model_hint'', JString
           ''Generated via Hugging Face Inference API (default mistralai/Mistral-7B-Instruct-v0.3).''),
        (''lenses'', JArray (map section_json sections))]"

definition OUTPUT_PATH :: "world \<Rightarrow> string" where
  "OUTPUT_PATH w = root w @ ''/data/resume_lenses.json''"

definition main :: "(string \<Rightarrow> error + json) \<Rightarrow> world \<Rightarrow> (error + unit) \<times> world" where
  "main loads w =
     (case load_resume w of
        Inl e \<Rightarrow> (Inl e, w)
      | Inr resume_text \<Rightarrow>
          (case generate_sections loads resume_text w of
             (Inl e, w1) \<Rightarrow> (Inl e, w1)
           | (Inr sections, w1) \<Rightarrow>
               let payload = output_document (strftime (utcnow w1)) sections;
                   w2 = w1\<lparr>data_dir := True\<rparr>;
                   w3 = w2\<lparr>output_file := Some (json_dumps (Some 2) payload)\<rparr>;
                   w4 = w3\<lparr>stdout := stdout w3 @ [''Wrote '' @ OUTPUT_PATH w3]\<rparr>
               in (Inr (), w4)))"

section \<open>Concrete runs\<close>

text \<open>
  A stub of the endpoint that gives every request the same reply, and a world around it,
  for running the program on concrete inputs.
\<close>

fun str_contains :: "string \<Rightarrow> string \<Rightarrow> bool" where
  \<comment> \<open>\<open>sub in s\<close>\<close>
  "str_contains [] sub = (sub = [])"
| "str_contains (x # xs) sub = (startswith (x # xs) sub \<or> str_contains xs sub)"

definition model_text :: string where
  \<open>model_text =
     ''Here you go: {"summary": " ok ", "bullets": ["x", "", "y", "z", "w"]} Thanks''\<close>

definition stub_body :: string where
  "stub_body = json_dumps None (JArray [JObject [(''generated_text'', JString model_text)]])"

definition stub_world :: "http_reply \<Rightarrow> world" where
  "stub_world reply =
     \<lparr>root = ''/site'',
      environ = [''HF_API_TOKEN'' \<mapsto> ''hf_demo''],
      resume_file = Some ''Engineer.'',
      data_dir = False,
      output_file = None,
      endpoint = (\<lambda>req. reply),
      requests = [],
      utcnow = \<lparr>year = 2024, month = 1, day = 2, hour = 3, minute = 4, second = 5\<rparr>,
      stdout = []\<rparr>"

definition blank_line_resume :: string where
  \<comment> \<open>three lines, the second one two blanks\<close>
  "blank_line_resume = ''A'' @ [NL] @ ''  '' @ [NL] @ ''B''"

definition five_bullets :: json where
  \<comment> \<open>a model response with padded fields, an empty bullet and more than three bullets\<close>
  "five_bullets =
     JObject [(''summary'', JString ''  hi  ''),
              (''bullets'', JArray [JString ''  a  '', JString '''', JString ''b'',
                                    JString ''c'', JString ''d''])]"

definition failing_world :: world where
  \<comment> \<open>every call is answered with status 500; a file of an earlier run is there\<close>
  "failing_world = (stub_world (HTTPError 500 ''boom''))\<lparr>output_file := Some ''old''\<rparr>"

definition later_world :: world where
  \<comment> \<open>the same inputs and the same stub, at another time, with an earlier file\<close>
  "later_world =
     (stub_world (Reply (Some stub_body)))
       \<lparr>output_file := Some ''old'',
        utcnow := \<lparr>year = 2025, month = 11, day = 12, hour = 13, minute = 14, second = 15\<rparr>\<rparr>"

definition stub_result :: "string \<times> lens_spec \<Rightarrow> lens_result" where
  \<comment> \<open>the section that \<open>model_text\<close> gives for a lens of the table\<close>
  "stub_result lens =
     \<lparr>lens_id = fst lens,
      title = spec_title (snd lens),
      summary = ''ok'',
      key_points = [''x'', ''y'', ''z''],
      recommended_terms = spec_recommended_terms (snd lens),
      source_notes = (case spec_source_notes (snd lens) of None \<Rightarrow> [] | Some notes \<Rightarrow> notes)\<rparr>"

section \<open>Auxiliary facts\<close>

subsection \<open>Trimming\<close>

lemma dropWhile_strip_fixed:
  "dropWhile P (rev (dropWhile P (rev (dropWhile P s)))) = rev (dropWhile P (rev (dropWhile P s)))"
proof -
  define t where "t = dropWhile P s"
  define u where "u = rev (dropWhile P (rev t))"
  have t_split: "t = u @ rev (takeWhile P (rev t))"
  proof -
    have "u @ rev (takeWhile P (rev t)) = rev (takeWhile P (rev t) @ dropWhile P (rev t))"
      unfolding u_def by (simp only: rev_append)
    also have "\<dots> = t"
      by (simp only: takeWhile_dropWhile_id rev_rev_ident)
    finally show ?thesis by simp
  qed
  have "dropWhile P u = u"
  proof (cases u)
    case Nil
    then show ?thesis by simp
  next
    case (Cons x xs)
    with t_split have "t = x # (xs @ rev (takeWhile P (rev t)))" by simp
    then have "t \<noteq> []" and "hd t = x"
      by (metis list.distinct(1), metis list.sel(1))
    then have "\<not> P x" unfolding t_def using hd_dropWhile by metis
    with Cons show ?thesis by simp
  qed
  then show ?thesis by (simp add: u_def t_def)
qed

lemma str_strip_idem: "str_strip (str_strip s) = str_strip s"
proof -
  let ?P = py_isspace
  let ?u = "rev (dropWhile ?P (rev (dropWhile ?P s)))"
  have "str_strip (str_strip s) = rev (dropWhile ?P (rev (dropWhile ?P ?u)))"
    by (simp add: str_strip_def)
  also have "\<dots> = rev (dropWhile ?P (rev ?u))"
    by (simp only: dropWhile_strip_fixed)
  also have "\<dots> = rev (dropWhile ?P (dropWhile ?P (rev (dropWhile ?P s))))"
    by simp
  also have "\<dots> = ?u"
    by (simp only: dropWhile_idem)
  finally show ?thesis by (simp add: str_strip_def)
qed

lemma assemble_key_points:
  assumes "assemble_section lid spec payload = Inr r"
  shows "length (key_points r) \<le> 3 \<and> (\<forall>k \<in> set (key_points r). k \<noteq> [] \<and> str_strip k \<noteq> [])"
proof -
  from assms obtain items where
    kp: "key_points r = take 3 (map (\<lambda>item. str_strip (py_str item))
                          (filter (\<lambda>item. str_strip (py_str item) \<noteq> []) items))"
    by (auto simp: assemble_section_def Let_def split: json.splits sum.splits)
  have "length (key_points r) \<le> 3" by (simp add: kp)
  moreover have "k \<noteq> [] \<and> str_strip k \<noteq> []" if "k \<in> set (key_points r)" for k
  proof -
    from that have "k \<in> set (map (\<lambda>item. str_strip (py_str item))
                          (filter (\<lambda>item. str_strip (py_str item) \<noteq> []) items))"
      unfolding kp by (rule in_set_takeD)
    then obtain item where "k = str_strip (py_str item)" and "str_strip (py_str item) \<noteq> []"
      by auto
    then show ?thesis by (simp add: str_strip_idem)
  qed
  ultimately show ?thesis by blast
qed


subsection \<open>What a call changes and what it depends on\<close>

lemma call_hugging_face_world:
  "snd (call_hugging_face loads prompt w) = w
   \<or> (\<exists>req. snd (call_hugging_face loads prompt w) = w\<lparr>requests := requests w @ [req]\<rparr>)"
  unfolding call_hugging_face_def Let_def
  by (auto split: option.split http_reply.split sum.split)

lemma get_token_service: "environ w = environ v \<Longrightarrow> get_token w = get_token v"
  by (simp add: get_token_def Let_def)

lemma build_request_service:
  "environ w = environ v \<Longrightarrow> build_request prompt token w = build_request prompt token v"
  by (simp add: build_request_def Let_def)

lemma call_hugging_face_service:
  assumes "environ w = environ v" and "endpoint w = endpoint v"
  shows "fst (call_hugging_face loads prompt w) = fst (call_hugging_face loads prompt v)"
  unfolding call_hugging_face_def Let_def
    get_token_service[OF assms(1)] build_request_service[OF assms(1)] assms(2)
  by (simp split: option.split http_reply.split sum.split)

lemma generate_section_world:
  "snd (generate_section loads t lens w) = w
   \<or> (\<exists>req. snd (generate_section loads t lens w) = w\<lparr>requests := requests w @ [req]\<rparr>)"
proof -
  let ?c = "call_hugging_face loads (build_prompt t (spec_instruction (snd lens))) w"
  have "snd (generate_section loads t lens w) = snd ?c"
    unfolding generate_section_def Let_def
    by (simp split: prod.split sum.split json.split)
  then show ?thesis
    using call_hugging_face_world[of loads "build_prompt t (spec_instruction (snd lens))" w]
    by simp
qed

lemma generate_section_service:
  assumes "environ w = environ v" and "endpoint w = endpoint v"
  shows "fst (generate_section loads t lens w) = fst (generate_section loads t lens v)"
proof -
  let ?p = "build_prompt t (spec_instruction (snd lens))"
  have same: "fst (call_hugging_face loads ?p w) = fst (call_hugging_face loads ?p v)"
    using assms by (rule call_hugging_face_service)
  have shape: "fst (generate_section loads t lens u) =
      (case fst (call_hugging_face loads ?p u) of
         Inl e \<Rightarrow> Inl e
       | Inr raw_output \<Rightarrow>
           (case raw_output of
              JString text \<Rightarrow>
                (case extract_json_block loads text of
                   Inl e \<Rightarrow> Inl e
                 | Inr payload \<Rightarrow> assemble_section (fst lens) (snd lens) payload)
            | _ \<Rightarrow> Inl AttributeError))" for u
    unfolding generate_section_def Let_def
    by (simp split: prod.split sum.split json.split)
  show ?thesis by (simp only: shape same)
qed

lemma generate_section_log:
  "\<exists>reqs. snd (generate_section loads t lens w) = w\<lparr>requests := requests w @ reqs\<rparr>"
proof -
  have "w = w\<lparr>requests := requests w @ []\<rparr>" by simp
  then show ?thesis
    using generate_section_world[of loads t lens w] by metis
qed

lemma sections_loop_log:
  "\<exists>reqs. snd (sections_loop loads t ls w) = w\<lparr>requests := requests w @ reqs\<rparr>"
proof (induction ls arbitrary: w)
  case Nil
  have "w = w\<lparr>requests := requests w @ []\<rparr>" by simp
  then have "snd (sections_loop loads t [] w) = w\<lparr>requests := requests w @ []\<rparr>" by simp
  then show ?case by blast
next
  case (Cons lens rest)
  obtain r w1 where step: "generate_section loads t lens w = (r, w1)"
    by (cases "generate_section loads t lens w")
  obtain reqs1 where w1: "w1 = w\<lparr>requests := requests w @ reqs1\<rparr>"
    using generate_section_log[of loads t lens w] step by auto
  show ?case
  proof (cases r)
    case (Inl e)
    with step have "snd (sections_loop loads t (lens # rest) w) = w1" by simp
    with w1 show ?thesis by blast
  next
    case (Inr sec)
    obtain r2 w2 where tail: "sections_loop loads t rest w1 = (r2, w2)"
      by (cases "sections_loop loads t rest w1")
    obtain reqs2 where w2: "w2 = w1\<lparr>requests := requests w1 @ reqs2\<rparr>"
      using Cons.IH[of w1] tail by auto
    have "w2 = w\<lparr>requests := requests w @ (reqs1 @ reqs2)\<rparr>"
      by (simp add: w1 w2)
    moreover have "snd (sections_loop loads t (lens # rest) w) = w2"
      using step Inr tail by (simp split: sum.split)
    ultimately show ?thesis by blast
  qed
qed

lemma sections_loop_fst:
  "fst (sections_loop loads t (lens # rest) w) =
     (case fst (generate_section loads t lens w) of
        Inl e \<Rightarrow> Inl e
      | Inr sec \<Rightarrow>
          (case fst (sections_loop loads t rest (snd (generate_section loads t lens w))) of
             Inl e \<Rightarrow> Inl e
           | Inr secs \<Rightarrow> Inr (sec # secs)))"
  by (simp split: prod.split sum.split)

lemma generate_section_keeps_service:
  "environ (snd (generate_section loads t lens w)) = environ w
   \<and> endpoint (snd (generate_section loads t lens w)) = endpoint w"
proof -
  obtain reqs where "snd (generate_section loads t lens w) = w\<lparr>requests := requests w @ reqs\<rparr>"
    using generate_section_log by blast
  then show ?thesis by simp
qed

lemma sections_loop_service:
  assumes "environ w = environ v" and "endpoint w = endpoint v"
  shows "fst (sections_loop loads t ls w) = fst (sections_loop loads t ls v)"
  using assms
proof (induction ls arbitrary: w v)
  case Nil
  then show ?case by simp
next
  case (Cons lens rest)
  let ?w1 = "snd (generate_section loads t lens w)"
  let ?v1 = "snd (generate_section loads t lens v)"
  have head: "fst (generate_section loads t lens w) = fst (generate_section loads t lens v)"
    using Cons.prems by (rule generate_section_service)
  have "environ ?w1 = environ ?v1" and "endpoint ?w1 = endpoint ?v1"
    using Cons.prems by (simp_all add: generate_section_keeps_service)
  then have tail: "fst (sections_loop loads t rest ?w1) = fst (sections_loop loads t rest ?v1)"
    by (rule Cons.IH)
  show ?case by (simp only: sections_loop_fst head tail)
qed

lemma sections_loop_fails:
  assumes "lens \<in> set ls" and "fst (generate_section loads t lens w) = Inl e"
  shows "isl (fst (sections_loop loads t ls w))"
  using assms
proof (induction ls arbitrary: w)
  case Nil
  then show ?case by simp
next
  case (Cons x rest)
  let ?w1 = "snd (generate_section loads t x w)"
  show ?case
  proof (cases "fst (generate_section loads t x w)")
    case (Inl e')
    then show ?thesis by (simp only: sections_loop_fst) simp
  next
    case (Inr sec)
    with Cons.prems have "lens \<noteq> x" by auto
    with Cons.prems have mem: "lens \<in> set rest" by simp
    have "fst (generate_section loads t lens ?w1) = fst (generate_section loads t lens w)"
      by (rule generate_section_service) (simp_all add: generate_section_keeps_service)
    with Cons.prems have "fst (generate_section loads t lens ?w1) = Inl e" by simp
    with mem have "isl (fst (sections_loop loads t rest ?w1))" by (rule Cons.IH)
    then obtain e2 where "fst (sections_loop loads t rest ?w1) = Inl e2"
      by (cases "fst (sections_loop loads t rest ?w1)") simp_all
    then show ?thesis
      by (simp only: sections_loop_fst Inr) simp
  qed
qed

subsection \<open>Where the sections come from\<close>

lemma generate_section_fst:
  "fst (generate_section loads t lens w) =
     (case fst (call_hugging_face loads (build_prompt t (spec_instruction (snd lens))) w) of
        Inl e \<Rightarrow> Inl e
      | Inr raw_output \<Rightarrow>
          (case raw_output of
             JString text \<Rightarrow>
               (case extract_json_block loads text of
                  Inl e \<Rightarrow> Inl e
                | Inr payload \<Rightarrow> assemble_section (fst lens) (snd lens) payload)
           | _ \<Rightarrow> Inl AttributeError))"
  unfolding generate_section_def Let_def
  by (simp split: prod.split sum.split json.split)

lemma generate_section_assembled:
  assumes "fst (generate_section loads t lens w) = Inr r"
  shows "\<exists>payload. assemble_section (fst lens) (snd lens) payload = Inr r"
  using assms unfolding generate_section_fst
  by (auto split: sum.splits json.splits)

lemma sections_loop_assembled:
  assumes "fst (sections_loop loads t ls w) = Inr secs" and "r \<in> set secs"
  shows "\<exists>lid spec payload. assemble_section lid spec payload = Inr r"
  using assms
proof (induction ls arbitrary: w secs)
  case Nil
  then show ?case by simp
next
  case (Cons lens rest)
  let ?w1 = "snd (generate_section loads t lens w)"
  from Cons.prems(1) obtain sec others where
    head: "fst (generate_section loads t lens w) = Inr sec" and
    tail: "fst (sections_loop loads t rest ?w1) = Inr others" and
    secs: "secs = sec # others"
    unfolding sections_loop_fst by (auto split: sum.splits)
  show ?case
  proof (cases "r = sec")
    case True
    with head generate_section_assembled show ?thesis by blast
  next
    case False
    with Cons.prems(2) secs have "r \<in> set others" by simp
    with tail show ?thesis by (rule Cons.IH)
  qed
qed

subsection \<open>Stringified values that are not blank\<close>

lemma str_strip_nonblank:
  assumes "c \<in> set s" and "\<not> py_isspace c"
  shows "str_strip s \<noteq> []"
proof
  assume "str_strip s = []"
  then have "dropWhile py_isspace (rev (dropWhile py_isspace s)) = []"
    by (simp add: str_strip_def)
  then have all: "\<forall>x \<in> set (dropWhile py_isspace s). py_isspace x"
    by (simp add: dropWhile_eq_Nil_conv)
  have "dropWhile py_isspace s = []"
  proof (rule ccontr)
    assume ne: "dropWhile py_isspace s \<noteq> []"
    then have "\<not> py_isspace (hd (dropWhile py_isspace s))" by (rule hd_dropWhile)
    moreover from ne have "hd (dropWhile py_isspace s) \<in> set (dropWhile py_isspace s)"
      by (rule hd_in_set)
    ultimately show False using all by blast
  qed
  then have "\<forall>x \<in> set s. py_isspace x" by (simp add: dropWhile_eq_Nil_conv)
  with assms show False by blast
qed

lemma digit_not_space:
  fixes k :: nat
  assumes "k < 10"
  shows "\<not> py_isspace (char_of (48 + k))"
proof -
  have "(of_char (char_of (48 + k)) :: nat) = 48 + k"
    using assms by simp
  with assms show ?thesis
    by (simp only: py_isspace_def Let_def) arith
qed

lemma str_nat_last: "str_nat n \<noteq> [] \<and> last (str_nat n) = char_of (48 + n mod 10)"
  by (subst (1 2) str_nat.simps) simp

lemma str_int_nonblank: "str_strip (str_int i) \<noteq> []"
proof -
  have "last (str_nat n) \<in> set (str_nat n)" for n
    using str_nat_last[of n] last_in_set[of "str_nat n"] by blast
  moreover have "\<not> py_isspace (last (str_nat n))" for n
    using str_nat_last[of n] digit_not_space[of "n mod 10"] by simp
  ultimately have "str_strip (str_nat n) \<noteq> []" for n
    by (rule str_strip_nonblank)
  moreover have "str_strip (CHR ''-'' # s) \<noteq> []" for s
    by (rule str_strip_nonblank[of "CHR ''-''"]) (simp_all add: py_isspace_def)
  ultimately show ?thesis by (simp add: str_int_def)
qed

lemma float_repr_nonblank: "str_strip (float_repr x) \<noteq> []"
proof (cases x)
  case NaN
  have "str_strip ''nan'' \<noteq> []"
    by (rule str_strip_nonblank[of "CHR ''n''"]) (simp_all add: py_isspace_def)
  with NaN show ?thesis by (simp add: float_repr_def)
next
  case (Inf negative)
  have "str_strip ''inf'' \<noteq> []"
    by (rule str_strip_nonblank[of "CHR ''i''"]) (simp_all add: py_isspace_def)
  moreover have "str_strip ''-inf'' \<noteq> []"
    by (rule str_strip_nonblank[of "CHR ''i''"]) (simp_all add: py_isspace_def)
  ultimately show ?thesis using Inf by (simp add: float_repr_def)
next
  case (Finite negative digits point)
  have mark: "CHR ''.'' \<in> set (finite_repr ds point) \<or> CHR ''e'' \<in> set (finite_repr ds point)"
    for ds
    by (simp add: finite_repr_def exponent_repr_def)
  have "str_strip (sign @ finite_repr ds point) \<noteq> []" for sign ds
  proof -
    from mark[of ds] show ?thesis
    proof
      assume "CHR ''.'' \<in> set (finite_repr ds point)"
      then have "CHR ''.'' \<in> set (sign @ finite_repr ds point)" by simp
      then show ?thesis by (rule str_strip_nonblank) (simp add: py_isspace_def)
    next
      assume "CHR ''e'' \<in> set (finite_repr ds point)"
      then have "CHR ''e'' \<in> set (sign @ finite_repr ds point)" by simp
      then show ?thesis by (rule str_strip_nonblank) (simp add: py_isspace_def)
    qed
  qed
  with Finite show ?thesis by (simp add: float_repr_def)
qed

lemma py_str_nonblank:
  assumes "\<forall>s. v \<noteq> JString s"
  shows "str_strip (py_str v) \<noteq> []"
proof (cases v)
  case JNull
  have "str_strip ''None'' \<noteq> []"
    by (rule str_strip_nonblank[of "CHR ''N''"]) (simp_all add: py_isspace_def)
  with JNull show ?thesis by (simp add: py_str_def)
next
  case (JBool b)
  have "str_strip ''True'' \<noteq> []"
    by (rule str_strip_nonblank[of "CHR ''T''"]) (simp_all add: py_isspace_def)
  moreover have "str_strip ''False'' \<noteq> []"
    by (rule str_strip_nonblank[of "CHR ''F''"]) (simp_all add: py_isspace_def)
  ultimately show ?thesis using JBool by (simp add: py_str_def)
next
  case (JInt i)
  with str_int_nonblank show ?thesis by (simp add: py_str_def)
next
  case (JFloat x)
  with float_repr_nonblank show ?thesis by (simp add: py_str_def)
next
  case (JString s)
  with assms show ?thesis by simp
next
  case (JArray xs)
  have "str_strip (CHR ''['' # rest) \<noteq> []" for rest
    by (rule str_strip_nonblank[of "CHR ''[''"]) (simp_all add: py_isspace_def)
  with JArray show ?thesis by (simp add: py_str_def)
next
  case (JObject d)
  have "str_strip (CHR ''{'' # rest) \<noteq> []" for rest
    by (rule str_strip_nonblank[of "CHR ''{''"]) (simp_all add: py_isspace_def)
  with JObject show ?thesis by (simp add: py_str_def)
qed

subsection \<open>A string in the place of the bullets\<close>

lemma str_strip_single: "str_strip [c] = (if py_isspace c then [] else [c])"
  by (simp add: str_strip_def)

lemma bullets_of_characters:
  "map (\<lambda>item. str_strip (py_str item))
     (filter (\<lambda>item. str_strip (py_str item) \<noteq> []) (map (\<lambda>c. JString [c]) s))
   = map (\<lambda>c. [c]) (filter (\<lambda>c. \<not> py_isspace c) s)"
  by (induction s) (simp_all add: py_str_def str_strip_single)

subsection \<open>Runs against the stub\<close>

lemma stub_body_decoded:
  "json_loads stub_body = Inr (JArray [JObject [(''generated_text'', JString model_text)]])"
  by code_simp

lemma model_text_extracted:
  "extract_json_block json_loads model_text
     = Inr (JObject [(''summary'', JString '' ok ''),
                     (''bullets'', JArray [JString ''x'', JString [], JString ''y'',
                                           JString ''z'', JString ''w''])])"
  by code_simp

lemma stub_section:
  assumes "get_token w = Some token" and "token \<noteq> []"
    and "endpoint w = (\<lambda>req. Reply (Some stub_body))"
  shows "fst (generate_section json_loads t (lid, spec) w)
     = Inr \<lparr>lens_id = lid, title = spec_title spec, summary = ''ok'',
            key_points = [''x'', ''y'', ''z''],
            recommended_terms = spec_recommended_terms spec,
            source_notes = (case spec_source_notes spec of None \<Rightarrow> [] | Some notes \<Rightarrow> notes)\<rparr>"
proof -
  have call: "fst (call_hugging_face json_loads p w) = Inr (JString model_text)" for p
    using assms
    by (simp add: call_hugging_face_def Let_def stub_body_decoded select_generated_text_def
        dict_get_def py_bool.simps model_text_def)
  have built: "assemble_section lid spec
       (JObject [(''summary'', JString '' ok ''),
                 (''bullets'', JArray [JString ''x'', JString [], JString ''y'',
                                       JString ''z'', JString ''w''])])
     = Inr \<lparr>lens_id = lid, title = spec_title spec, summary = ''ok'',
            key_points = [''x'', ''y'', ''z''],
            recommended_terms = spec_recommended_terms spec,
            source_notes = (case spec_source_notes spec of None \<Rightarrow> [] | Some notes \<Rightarrow> notes)\<rparr>"
    by (simp add: assemble_section_def dict_get_def py_iter_def py_str_def str_strip_def
        py_isspace_def)
  have "fst (generate_section json_loads t (lid, spec) w) =
      (case fst (call_hugging_face json_loads (build_prompt t (spec_instruction spec)) w) of
         Inl e \<Rightarrow> Inl e
       | Inr raw_output \<Rightarrow>
           (case raw_output of
              JString text \<Rightarrow>
                (case extract_json_block json_loads text of
                   Inl e \<Rightarrow> Inl e
                 | Inr payload \<Rightarrow> assemble_section lid spec payload)
            | _ \<Rightarrow> Inl AttributeError))"
    unfolding generate_section_def Let_def
    by (simp split: prod.split sum.split json.split)
  then show ?thesis
    by (simp add: call model_text_extracted built)
qed

lemma stub_loop:
  assumes "get_token w = Some token" and "token \<noteq> []"
    and "endpoint w = (\<lambda>req. Reply (Some stub_body))"
  shows "fst (sections_loop json_loads t ls w) = Inr (map stub_result ls)"
  using assms
proof (induction ls arbitrary: w)
  case Nil
  then show ?case by simp
next
  case (Cons lens rest)
  let ?w1 = "snd (generate_section json_loads t lens w)"
  obtain lid spec where lens: "lens = (lid, spec)" by (cases lens)
  have head: "fst (generate_section json_loads t lens w) = Inr (stub_result lens)"
    unfolding lens stub_result_def using Cons.prems by (simp add: stub_section)
  have kept: "environ ?w1 = environ w" "endpoint ?w1 = endpoint w"
    by (simp_all add: generate_section_keeps_service)
  have "get_token ?w1 = Some token"
    using get_token_service[OF kept(1)] Cons.prems(1) by simp
  moreover have "endpoint ?w1 = (\<lambda>req. Reply (Some stub_body))"
    using kept(2) Cons.prems(3) by simp
  ultimately have "fst (sections_loop json_loads t rest ?w1) = Inr (map stub_result rest)"
    using Cons.prems(2) by (intro Cons.IH)
  with head show ?case by (simp only: sections_loop_fst) simp
qed

lemma stub_run:
  "fst (generate_sections json_loads t (stub_world (Reply (Some stub_body))))
     = Inr (map stub_result LENSES)"
  unfolding generate_sections_def
  by (rule stub_loop[of _ "''hf_demo''"]) (simp_all add: get_token_def stub_world_def)

subsection \<open>The text that is written\<close>

lemma main_missing_resume:
  assumes "load_resume w = Inl e"
  shows "main loads w = (Inl e, w)"
  using assms by (simp add: main_def)

lemma generate_sections_log:
  "\<exists>reqs. snd (generate_sections loads t w) = w\<lparr>requests := requests w @ reqs\<rparr>"
  unfolding generate_sections_def by (rule sections_loop_log)

lemma main_failed_sections:
  assumes "load_resume w = Inr t" and "fst (generate_sections loads t w) = Inl e"
  shows "fst (main loads w) = Inl e \<and> output_file (snd (main loads w)) = output_file w"
proof -
  obtain reqs where w1: "snd (generate_sections loads t w) = w\<lparr>requests := requests w @ reqs\<rparr>"
    using generate_sections_log by blast
  obtain r w' where run: "generate_sections loads t w = (r, w')"
    by (cases "generate_sections loads t w")
  with assms(2) have r: "r = Inl e" by simp
  have "main loads w = (Inl e, w')"
    by (simp add: main_def assms(1) run r)
  with w1 run show ?thesis by simp
qed

lemma main_written:
  assumes "load_resume w = Inr t" and "fst (generate_sections loads t w) = Inr secs"
  shows "fst (main loads w) = Inr ()
     \<and> output_file (snd (main loads w))
        = Some (json_dumps (Some 2) (output_document (strftime (utcnow w)) secs))"
proof -
  obtain reqs where w1: "snd (generate_sections loads t w) = w\<lparr>requests := requests w @ reqs\<rparr>"
    using generate_sections_log by blast
  obtain r w' where run: "generate_sections loads t w = (r, w')"
    by (cases "generate_sections loads t w")
  with assms(2) have r: "r = Inr secs" by simp
  from w1 run have "w' = w\<lparr>requests := requests w @ reqs\<rparr>" by simp
  then show ?thesis
    by (simp add: main_def Let_def assms(1) run r)
qed

lemma generated_at_prefix:
  \<open>''{'' @ [NL] @ ''  "generated_at": ''
     = ''{'' @ newline_indent 2 (Suc 0) @ encode_basestring_ascii ''generated_at'' @ '': ''\<close>
  by code_simp

lemma output_document_text:
  \<open>\<exists>rest. \<forall>stamp. json_dumps (Some 2) (output_document stamp secs)
      = (''{'' @ [NL] @ ''  "generated_at": '') @ encode_basestring_ascii stamp @ rest\<close>
proof -
  define rest where "rest =
    '','' @ newline_indent 2 (Suc 0)
    @ encode_basestring_ascii ''model_hint'' @ '': ''
    @ encode_basestring_ascii
        ''Generated via Hugging Face Inference API (default mistralai/Mistral-7B-Instruct-v0.3).''
    @ '','' @ newline_indent 2 (Suc 0)
    @ encode_basestring_ascii ''lenses'' @ '': ''
    @ iterencode (Some 2) (Suc 0) (JArray (map section_json secs))
    @ newline_indent 2 0 @ ''}''"
  have "json_dumps (Some 2) (output_document stamp secs)
      = (''{'' @ newline_indent 2 (Suc 0) @ encode_basestring_ascii ''generated_at'' @ '': '')
        @ encode_basestring_ascii stamp @ rest" for stamp
    unfolding json_dumps_def output_document_def rest_def
    by (simp del: iterencode.simps(6) add: iterencode.simps(7))
  then show ?thesis
    unfolding generated_at_prefix by blast
qed

subsection \<open>Substrings and lines\<close>

lemma str_contains_parts:
  assumes "str_contains s sub"
  shows "\<exists>before after. s = before @ sub @ after"
  using assms
proof (induction s)
  case Nil
  then show ?case by simp
next
  case (Cons x xs)
  show ?case
  proof (cases "startswith (x # xs) sub")
    case True
    then have "x # xs = [] @ sub @ drop (length sub) (x # xs)"
      unfolding startswith_def by (metis append_Nil append_take_drop_id)
    then show ?thesis by blast
  next
    case False
    with Cons.prems have "str_contains xs sub" by simp
    then obtain before after where "xs = before @ sub @ after"
      using Cons.IH by blast
    then have "x # xs = (x # before) @ sub @ after" by simp
    then show ?thesis by blast
  qed
qed

lemma split_on_nonempty: "split_on c s \<noteq> []"
  by (induction s) (auto split: list.splits)

lemma split_on_separator: "split_on c (xs @ c # ys) = split_on c xs @ split_on c ys"
proof (induction xs)
  case Nil
  then show ?case by simp
next
  case (Cons x xs)
  then show ?case
    using split_on_nonempty[of c xs] by (cases "split_on c xs") auto
qed

lemma split_on_line: "c \<notin> set m \<Longrightarrow> split_on c m = [m]"
  by (induction m) auto

lemma str_contains_line:
  assumes "str_contains s (a @ c # m @ c # b)" and "c \<notin> set m"
  shows "m \<in> set (split_on c s)"
proof -
  obtain before after where "s = before @ (a @ c # m @ c # b) @ after"
    using assms(1) str_contains_parts by blast
  then have "s = (before @ a) @ c # (m @ c # (b @ after))" by simp
  then have "split_on c s
      = split_on c (before @ a) @ split_on c m @ split_on c (b @ after)"
    by (simp only: split_on_separator)
  with assms(2) show ?thesis by (simp add: split_on_line)
qed

section \<open>Properties of the response extractor\<close>

text \<open>
  C1, as the specification states it: on the text \<open>{"a":1} blah {\<close> the snippet from the
  first opening brace to the last closing brace is the whole text, and decoding it fails.
  The code does otherwise: the last closing brace is at index 6, before the second opening
  brace, so the snippet is \<open>{"a":1}\<close>, which decodes.
\<close>

theorem extract_json_block_trailing_brace_counterexample:
  \<open>\<not> (extract_json_block echo_loads ''{"a":1} blah {'' = Inr (JString ''{"a":1} blah {'')
      \<and> extract_json_block json_loads ''{"a":1} blah {'' = Inl JSONDecodeError)\<close>
  by code_simp

text \<open>
  C1, amended: on the text \<open>{"a":1} blah {\<close> the extractor decodes the snippet
  \<open>{"a":1}\<close>, from the first opening brace to the last closing brace, and returns the
  object that maps \<open>a\<close> to 1.
\<close>

theorem extract_json_block_trailing_brace:
  \<open>extract_json_block loads ''{"a":1} blah {'' = loads ''{"a":1}''
    \<and> extract_json_block json_loads ''{"a":1} blah {'' = Inr (JObject [(''a'', JInt 1)])\<close>
proof
  show \<open>extract_json_block loads ''{"a":1} blah {'' = loads ''{"a":1}''\<close>
    by (simp add: extract_json_block_def str_find_def str_rfind_def str_slice_def
        slice_bound_def)
  show \<open>extract_json_block json_loads ''{"a":1} blah {'' = Inr (JObject [(''a'', JInt 1)])\<close>
    by code_simp
qed

section \<open>Properties of the prompt\<close>

text \<open>
  C2 asks that the prompt hold the resume text as it is. \<open>dedent\<close> runs on the whole
  text, after the resume has been put into the template, so it also rewrites the lines
  of the resume: for the resume \<open>blank_line_resume\<close>, whose second line is two blanks,
  the prompt of every lens has the three lines with the second one emptied (and the first
  one still indented), and does not hold the resume text.
\<close>

theorem build_prompt_empties_blank_line:
  "list_all
     (\<lambda>lens.
        \<not> str_contains (build_prompt blank_line_resume (spec_instruction (snd lens)))
            blank_line_resume
        \<and> take 3 (drop 4 (split_on NL
              (build_prompt blank_line_resume (spec_instruction (snd lens)))))
          = [indent12 @ ''A'', [], ''B''])
     LENSES"
proof -
  have lines: "list_all
     (\<lambda>lens.
        ''  '' \<notin> set (split_on NL
              (build_prompt blank_line_resume (spec_instruction (snd lens))))
        \<and> take 3 (drop 4 (split_on NL
              (build_prompt blank_line_resume (spec_instruction (snd lens)))))
          = [indent12 @ ''A'', [], ''B''])
     LENSES"
    by code_simp
  have absent: "\<not> str_contains p blank_line_resume" if "''  '' \<notin> set (split_on NL p)" for p
  proof
    assume "str_contains p blank_line_resume"
    then have "str_contains p (''A'' @ NL # ''  '' @ NL # ''B'')"
      by (simp add: blank_line_resume_def)
    moreover have "NL \<notin> set ''  ''" by (simp add: NL_def)
    ultimately have "''  '' \<in> set (split_on NL p)" by (rule str_contains_line)
    with that show False by simp
  qed
  show ?thesis
    using lines absent by (simp add: list_all_iff)
qed

section \<open>Properties of the inference client\<close>

text \<open>
  C3, as the specification states it: whenever the decoded body is a non-empty array whose
  first element is an object with a \<open>generated_text\<close> field, the client returns that
  text and raises nothing. The code does otherwise on the body
  \<open>[{"generated_text": ""}]\<close>: it is valid JSON of that shape, and the guard of line 95
  raises the error that carries the payload.
\<close>

theorem call_hugging_face_empty_text_counterexample:
  \<open>json_loads ''[{"generated_text": ""}]''
      = Inr (JArray [JObject [(''generated_text'', JString [])]])
    \<and> fst (call_hugging_face json_loads ''prompt''
             (stub_world (Reply (Some ''[{"generated_text": ""}]''))))
      = Inl (UnexpectedPayload (JArray [JObject [(''generated_text'', JString [])]]))\<close>
  by code_simp

text \<open>
  C3, amended. Let the credential be set, the call be answered with a body, and the body
  decode to \<open>parsed\<close>. If \<open>parsed\<close> is an array whose first element is an object with a
  non-empty string under \<open>generated_text\<close>, the client returns that string; if the object
  has no such field, or a value there that counts as false (the empty string, \<open>null\<close>,
  \<open>false\<close>, zero, an empty array or object), it raises the error carrying \<open>parsed\<close>.
  If \<open>parsed\<close> is an object with the field, the client returns \<open>str\<close> of the value.
  If \<open>parsed\<close> is an object without the field, the empty array, or no array and no
  object at all, it raises the error carrying \<open>parsed\<close>.
\<close>

theorem call_hugging_face_shapes:
  assumes "get_token w = Some token" and "token \<noteq> []"
    and "endpoint w (build_request prompt token w) = Reply (Some body)"
    and "loads body = Inr parsed"
  shows "(parsed = JArray (JObject d # others) \<and> dict_get d ''generated_text'' = Some (JString s)
            \<and> s \<noteq> []
          \<longrightarrow> fst (call_hugging_face loads prompt w) = Inr (JString s))
     \<and> (parsed = JArray (JObject d # others)
            \<and> (dict_get d ''generated_text'' = None
                 \<or> (\<exists>v. dict_get d ''generated_text'' = Some v \<and> \<not> py_bool v))
          \<longrightarrow> fst (call_hugging_face loads prompt w) = Inl (UnexpectedPayload parsed))
     \<and> (parsed = JObject d \<and> dict_get d ''generated_text'' = Some v
          \<longrightarrow> fst (call_hugging_face loads prompt w) = Inr (JString (py_str v)))
     \<and> (parsed = JObject d \<and> dict_get d ''generated_text'' = None
          \<longrightarrow> fst (call_hugging_face loads prompt w) = Inl (UnhandledStructure parsed))
     \<and> (parsed = JArray [] \<or> parsed = JNull \<or> parsed = JBool b \<or> parsed = JInt i
            \<or> parsed = JFloat x \<or> parsed = JString t
          \<longrightarrow> fst (call_hugging_face loads prompt w) = Inl (UnhandledStructure parsed))"
proof -
  have run: "fst (call_hugging_face loads prompt w) = select_generated_text parsed"
    using assms by (simp add: call_hugging_face_def Let_def)
  show ?thesis
    unfolding run
    by (auto simp: select_generated_text_def)
qed

theorem call_hugging_face_shapes_witness:
  \<open>fst (call_hugging_face json_loads ''prompt''
          (stub_world (Reply (Some ''[{"generated_text": "hi"}, 7]''))))
      = Inr (JString ''hi'')
    \<and> fst (call_hugging_face json_loads ''prompt''
          (stub_world (Reply (Some ''[{"other": 1}]''))))
      = Inl (UnexpectedPayload (JArray [JObject [(''other'', JInt 1)]]))
    \<and> fst (call_hugging_face json_loads ''prompt''
          (stub_world (Reply (Some ''{"generated_text": null}''))))
      = Inr (JString ''None'')
    \<and> fst (call_hugging_face json_loads ''prompt''
          (stub_world (Reply (Some ''{"error": "loading"}''))))
      = Inl (UnhandledStructure (JObject [(''error'', JString ''loading'')]))
    \<and> fst (call_hugging_face json_loads ''prompt'' (stub_world (Reply (Some ''[]''))))
      = Inl (UnhandledStructure (JArray []))\<close>
proof -
  have token: "get_token (stub_world r) = Some ''hf_demo''" for r
    by (simp add: get_token_def stub_world_def)
  have filled: "''hf_demo'' \<noteq> []" by simp
  have reply: "endpoint (stub_world r) (build_request ''prompt'' ''hf_demo'' (stub_world r)) = r" for r
    by (simp add: stub_world_def)
  have b1: \<open>json_loads ''[{"generated_text": "hi"}, 7]''
      = Inr (JArray (JObject [(''generated_text'', JString ''hi'')] # [JInt 7]))\<close>
    by code_simp
  have b2: \<open>json_loads ''[{"other": 1}]'' = Inr (JArray (JObject [(''other'', JInt 1)] # []))\<close>
    by code_simp
  have b3: \<open>json_loads ''{"generated_text": null}'' = Inr (JObject [(''generated_text'', JNull)])\<close>
    by code_simp
  have b4: \<open>json_loads ''{"error": "loading"}'' = Inr (JObject [(''error'', JString ''loading'')])\<close>
    by code_simp
  have b5: \<open>json_loads ''[]'' = Inr (JArray [])\<close>
    by code_simp
  note shapes = call_hugging_face_shapes [where loads = json_loads, OF token filled reply]
  show ?thesis
    using shapes [OF b1, where d = "[(''generated_text'', JString ''hi'')]"
          and others = "[JInt 7]" and s = "''hi''"]
      shapes [OF b2, where d = "[(''other'', JInt 1)]" and others = "[]"]
      shapes [OF b3, where d = "[(''generated_text'', JNull)]" and v = JNull]
      shapes [OF b4, where d = "[(''error'', JString ''loading'')]"]
      shapes [OF b5]
    by (simp add: dict_get_def py_str_def)
qed

text \<open>
  C8: with both \<open>HF_API_TOKEN\<close> and \<open>HF_TOKEN\<close> set to the empty string the client raises
  the missing-credential error before any request, as it does with neither set; and an
  empty \<open>HF_API_TOKEN\<close> is passed over for a non-empty \<open>HF_TOKEN\<close>, which is the token of
  the request's \<open>Authorization\<close> header.
\<close>

theorem empty_tokens_missing_credential:
  "(environ w ''HF_API_TOKEN'' = Some [] \<and> environ w ''HF_TOKEN'' = Some []
      \<longrightarrow> call_hugging_face loads prompt w = (Inl EnvironmentError, w))
   \<and> (environ w ''HF_API_TOKEN'' = None \<and> environ w ''HF_TOKEN'' = None
      \<longrightarrow> call_hugging_face loads prompt w = (Inl EnvironmentError, w))
   \<and> (environ w ''HF_API_TOKEN'' = Some [] \<and> environ w ''HF_TOKEN'' = Some token \<and> token \<noteq> []
      \<longrightarrow> requests (snd (call_hugging_face loads prompt w))
            = requests w @ [build_request prompt token w]
          \<and> map_of (req_headers (build_request prompt token w)) ''Authorization''
            = Some (''Bearer '' @ token))"
proof (intro conjI impI)
  assume "environ w ''HF_API_TOKEN'' = Some [] \<and> environ w ''HF_TOKEN'' = Some []"
  then have "get_token w = Some []" by (simp add: get_token_def)
  then show "call_hugging_face loads prompt w = (Inl EnvironmentError, w)"
    by (simp add: call_hugging_face_def)
next
  assume "environ w ''HF_API_TOKEN'' = None \<and> environ w ''HF_TOKEN'' = None"
  then have "get_token w = None" by (simp add: get_token_def)
  then show "call_hugging_face loads prompt w = (Inl EnvironmentError, w)"
    by (simp add: call_hugging_face_def)
next
  assume a: "environ w ''HF_API_TOKEN'' = Some [] \<and> environ w ''HF_TOKEN'' = Some token \<and> token \<noteq> []"
  then have tok: "get_token w = Some token" by (simp add: get_token_def)
  show "requests (snd (call_hugging_face loads prompt w))
            = requests w @ [build_request prompt token w]"
    using a by (simp add: call_hugging_face_def tok Let_def
        split: http_reply.split option.split sum.split)
  show "map_of (req_headers (build_request prompt token w)) ''Authorization''
            = Some (''Bearer '' @ token)"
    by (simp add: build_request_def Let_def)
qed

theorem empty_tokens_missing_credential_witness:
  "call_hugging_face json_loads ''prompt''
      ((stub_world (Reply None))\<lparr>environ := [''HF_API_TOKEN'' \<mapsto> [], ''HF_TOKEN'' \<mapsto> []]\<rparr>)
     = (Inl EnvironmentError,
        (stub_world (Reply None))\<lparr>environ := [''HF_API_TOKEN'' \<mapsto> [], ''HF_TOKEN'' \<mapsto> []]\<rparr>)
   \<and> call_hugging_face json_loads ''prompt'' ((stub_world (Reply None))\<lparr>environ := Map.empty\<rparr>)
     = (Inl EnvironmentError, (stub_world (Reply None))\<lparr>environ := Map.empty\<rparr>)
   \<and> map (\<lambda>req. map_of (req_headers req) ''Authorization'')
        (requests (snd (call_hugging_face json_loads ''prompt''
           ((stub_world (Reply None))
              \<lparr>environ := [''HF_API_TOKEN'' \<mapsto> [], ''HF_TOKEN'' \<mapsto> ''hf_second'']\<rparr>))))
     = [Some ''Bearer hf_second'']"
  using empty_tokens_missing_credential
      [of "(stub_world (Reply None))\<lparr>environ := [''HF_API_TOKEN'' \<mapsto> [], ''HF_TOKEN'' \<mapsto> []]\<rparr>"
          json_loads "''prompt''"]
    empty_tokens_missing_credential
      [of "(stub_world (Reply None))\<lparr>environ := Map.empty\<rparr>" json_loads "''prompt''"]
    empty_tokens_missing_credential
      [of "(stub_world (Reply None))
             \<lparr>environ := [''HF_API_TOKEN'' \<mapsto> [], ''HF_TOKEN'' \<mapsto> ''hf_second'']\<rparr>"
          json_loads "''prompt''" "''hf_second''"]
  by (simp add: stub_world_def)

section \<open>Properties of the generation pipeline\<close>

text \<open>
  C4: the response \<open>{"summary": "  hi  ", "bullets": ["  a  ", "", "b", "c", "d"]}\<close> is
  assembled into a result with the summary \<open>hi\<close> and the key points \<open>a\<close>, \<open>b\<close>, \<open>c\<close>:
  both fields are trimmed, the bullet that is empty is dropped, and the list stops after
  three entries.
\<close>

theorem assemble_section_trims_and_truncates:
  \<open>extract_json_block json_loads
       ''{"summary": "  hi  ", "bullets": ["  a  ", "", "b", "c", "d"]}'' = Inr five_bullets
    \<and> assemble_section lid spec five_bullets
      = Inr \<lparr>lens_id = lid, title = spec_title spec, summary = ''hi'',
             key_points = [''a'', ''b'', ''c''],
             recommended_terms = spec_recommended_terms spec,
             source_notes = (case spec_source_notes spec of None \<Rightarrow> [] | Some notes \<Rightarrow> notes)\<rparr>\<close>
proof
  show \<open>extract_json_block json_loads
       ''{"summary": "  hi  ", "bullets": ["  a  ", "", "b", "c", "d"]}'' = Inr five_bullets\<close>
    by code_simp
  show \<open>assemble_section lid spec five_bullets
      = Inr \<lparr>lens_id = lid, title = spec_title spec, summary = ''hi'',
             key_points = [''a'', ''b'', ''c''],
             recommended_terms = spec_recommended_terms spec,
             source_notes = (case spec_source_notes spec of None \<Rightarrow> [] | Some notes \<Rightarrow> notes)\<rparr>\<close>
    by (simp add: five_bullets_def assemble_section_def dict_get_def py_iter_def py_str_def
        str_strip_def py_isspace_def)
qed

text \<open>
  C5: whatever object the model's response holds, a result assembled from it has at most
  three key points, and none of them is empty or becomes empty when trimmed; so it is for
  every result that \<open>generate_sections\<close> returns.
\<close>

theorem key_points_at_most_three:
  "(assemble_section lid spec payload = Inr r
      \<longrightarrow> length (key_points r) \<le> 3
          \<and> (\<forall>k \<in> set (key_points r). k \<noteq> [] \<and> str_strip k \<noteq> []))
   \<and> (generate_sections loads t w = (Inr secs, w') \<and> r' \<in> set secs
      \<longrightarrow> length (key_points r') \<le> 3
          \<and> (\<forall>k \<in> set (key_points r'). k \<noteq> [] \<and> str_strip k \<noteq> []))"
proof (rule conjI; rule impI)
  assume "assemble_section lid spec payload = Inr r"
  then show "length (key_points r) \<le> 3
          \<and> (\<forall>k \<in> set (key_points r). k \<noteq> [] \<and> str_strip k \<noteq> [])"
    by (rule assemble_key_points)
next
  assume run: "generate_sections loads t w = (Inr secs, w') \<and> r' \<in> set secs"
  then have "fst (sections_loop loads t LENSES w) = Inr secs"
    by (simp add: generate_sections_def)
  with run obtain lid' spec' payload' where "assemble_section lid' spec' payload' = Inr r'"
    using sections_loop_assembled by blast
  then show "length (key_points r') \<le> 3
          \<and> (\<forall>k \<in> set (key_points r'). k \<noteq> [] \<and> str_strip k \<noteq> [])"
    by (rule assemble_key_points)
qed

theorem key_points_at_most_three_witness:
  "assemble_section ''lens'' (snd (LENSES ! 0)) five_bullets
      = Inr \<lparr>lens_id = ''lens'', title = ''AI + privacy'', summary = ''hi'',
             key_points = [''a'', ''b'', ''c''],
             recommended_terms = [''privacy'', ''AI'', ''OCR'', ''security'', ''tabletop''],
             source_notes = []\<rparr>
   \<and> list_all (\<lambda>k. k \<noteq> [] \<and> str_strip k \<noteq> []) [''a'', ''b'', ''c'']
   \<and> fst (generate_sections json_loads ''Engineer.'' (stub_world (Reply (Some stub_body))))
      = Inr (map stub_result LENSES)
   \<and> stub_result (LENSES ! 1) \<in> set (map stub_result LENSES)
   \<and> length (key_points (stub_result (LENSES ! 1))) \<le> 3
   \<and> list_all (\<lambda>k. k \<noteq> [] \<and> str_strip k \<noteq> []) (key_points (stub_result (LENSES ! 1)))"
proof -
  let ?w = "stub_world (Reply (Some stub_body))"
  let ?r = "\<lparr>lens_id = ''lens'', title = ''AI + privacy'', summary = ''hi'',
             key_points = [''a'', ''b'', ''c''],
             recommended_terms = [''privacy'', ''AI'', ''OCR'', ''security'', ''tabletop''],
             source_notes = []\<rparr>"
  have one: "assemble_section ''lens'' (snd (LENSES ! 0)) five_bullets = Inr ?r"
    by (simp add: five_bullets_def assemble_section_def dict_get_def py_iter_def py_str_def
        str_strip_def py_isspace_def LENSES_def)
  have run: "generate_sections json_loads ''Engineer.'' ?w
      = (Inr (map stub_result LENSES), snd (generate_sections json_loads ''Engineer.'' ?w))"
    using stub_run[of "''Engineer.''"] by (metis prod.collapse)
  have member: "stub_result (LENSES ! 1) \<in> set (map stub_result LENSES)"
    by (simp add: LENSES_def)
  from run member
  have both: "generate_sections json_loads ''Engineer.'' ?w
      = (Inr (map stub_result LENSES), snd (generate_sections json_loads ''Engineer.'' ?w))
      \<and> stub_result (LENSES ! 1) \<in> set (map stub_result LENSES)"
    by blast
  show ?thesis
    using key_points_at_most_three
        [of "''lens''" "snd (LENSES ! 0)" five_bullets ?r json_loads "''Engineer.''" ?w
            "map stub_result LENSES" "snd (generate_sections json_loads ''Engineer.'' ?w)"
            "stub_result (LENSES ! 1)"]
      one both stub_run[of "''Engineer.''"]
    by (simp add: list_all_iff)
qed

text \<open>
  C9, as written: only an absent \<open>summary\<close> gives the empty summary. The code does
  otherwise for the response \<open>{"summary": "  "}\<close>: the field is present, its value is a
  string of two blanks, line 139 trims it, and the summary is empty.
\<close>

theorem summary_blank_string_counterexample:
  \<open>extract_json_block json_loads ''{"summary": "  "}'' = Inr (JObject [(''summary'', JString ''  '')])
    \<and> dict_get [(''summary'', JString ''  '')] ''summary'' = Some (JString ''  '')
    \<and> map_sum id summary
         (assemble_section ''ai-privacy'' (snd (LENSES ! 0)) (JObject [(''summary'', JString ''  '')]))
       = Inr []\<close>
proof (intro conjI)
  show \<open>extract_json_block json_loads ''{"summary": "  "}''
      = Inr (JObject [(''summary'', JString ''  '')])\<close>
    by code_simp
  show "dict_get [(''summary'', JString ''  '')] ''summary'' = Some (JString ''  '')"
    by (simp add: dict_get_def)
  show "map_sum id summary
         (assemble_section ''ai-privacy'' (snd (LENSES ! 0)) (JObject [(''summary'', JString ''  '')]))
       = Inr []"
    by (simp add: assemble_section_def dict_get_def py_iter_def py_str_def str_strip_def
        py_isspace_def)
qed

text \<open>
  C9, amended: a \<open>summary\<close> that is present with the value \<open>null\<close> gives the summary
  \<open>None\<close>, four characters, not the empty string. A value that is present, of whatever
  kind, is stringified and trimmed; a field that is absent gives the empty summary. The
  summary is empty in two cases only: the field is absent, or it is present and its value
  is a string that is empty or all whitespace.
\<close>

theorem summary_stringified:
  assumes "assemble_section lid spec (JObject d) = Inr r"
  shows "(dict_get d ''summary'' = Some JNull \<longrightarrow> summary r = ''None'')
     \<and> (dict_get d ''summary'' = Some v \<longrightarrow> summary r = str_strip (py_str v))
     \<and> (dict_get d ''summary'' = None \<longrightarrow> summary r = [])
     \<and> (summary r = []) =
         (dict_get d ''summary'' = None
          \<or> (\<exists>s. dict_get d ''summary'' = Some (JString s) \<and> str_strip s = []))"
proof -
  from assms have stringified:
    "summary r = str_strip (py_str (case dict_get d ''summary'' of
                                     None \<Rightarrow> JString [] | Some u \<Rightarrow> u))"
    by (auto simp: assemble_section_def Let_def split: sum.splits)
  have null: "str_strip (py_str JNull) = ''None''"
    by (simp add: py_str_def str_strip_def py_isspace_def)
  have absent: "str_strip (py_str (JString [])) = []"
    by (simp add: py_str_def str_strip_def)
  have plain: "str_strip (py_str (JString s)) = str_strip s" for s
    by (simp add: py_str_def)
  have empty: "(summary r = []) =
         (dict_get d ''summary'' = None
          \<or> (\<exists>s. dict_get d ''summary'' = Some (JString s) \<and> str_strip s = []))"
  proof (cases "dict_get d ''summary''")
    case None
    with stringified absent show ?thesis by simp
  next
    case (Some u)
    show ?thesis
    proof (cases "\<exists>s. u = JString s")
      case True
      with Some stringified plain show ?thesis by auto
    next
      case False
      then have "str_strip (py_str u) \<noteq> []" by (intro py_str_nonblank) simp
      with Some False stringified show ?thesis by auto
    qed
  qed
  show ?thesis
    using empty by (auto simp: stringified null absent)
qed

theorem summary_stringified_witness:
  "assemble_section ''lens''
        \<lparr>spec_title = ''AI + privacy'', spec_instruction = ''Summarise.'',
         spec_recommended_terms = [], spec_source_notes = None\<rparr>
        (JObject [(''summary'', JNull)])
      = Inr \<lparr>lens_id = ''lens'', title = ''AI + privacy'', summary = ''None'',
             key_points = [], recommended_terms = [], source_notes = []\<rparr>
   \<and> assemble_section ''lens''
        \<lparr>spec_title = ''AI + privacy'', spec_instruction = ''Summarise.'',
         spec_recommended_terms = [], spec_source_notes = None\<rparr>
        (JObject [(''summary'', JFloat (Finite False 25 1))])
      = Inr \<lparr>lens_id = ''lens'', title = ''AI + privacy'', summary = ''2.5'',
             key_points = [], recommended_terms = [], source_notes = []\<rparr>
   \<and> assemble_section ''lens''
        \<lparr>spec_title = ''AI + privacy'', spec_instruction = ''Summarise.'',
         spec_recommended_terms = [], spec_source_notes = None\<rparr>
        (JObject [(''summary'', JString ''  '')])
      = Inr \<lparr>lens_id = ''lens'', title = ''AI + privacy'', summary = [],
             key_points = [], recommended_terms = [], source_notes = []\<rparr>
   \<and> assemble_section ''lens''
        \<lparr>spec_title = ''AI + privacy'', spec_instruction = ''Summarise.'',
         spec_recommended_terms = [], spec_source_notes = None\<rparr>
        (JObject [])
      = Inr \<lparr>lens_id = ''lens'', title = ''AI + privacy'', summary = [],
             key_points = [], recommended_terms = [], source_notes = []\<rparr>"
proof -
  let ?spec = "\<lparr>spec_title = ''AI + privacy'', spec_instruction = ''Summarise.'',
         spec_recommended_terms = [], spec_source_notes = None\<rparr>"
  let ?res = "\<lambda>text. \<lparr>lens_id = ''lens'', title = ''AI + privacy'', summary = text,
             key_points = [], recommended_terms = [], source_notes = []\<rparr>"
  have null: "assemble_section ''lens'' ?spec (JObject [(''summary'', JNull)]) = Inr (?res ''None'')"
    by (simp add: assemble_section_def dict_get_def py_iter_def py_str_def str_strip_def
        py_isspace_def)
  have number: "assemble_section ''lens'' ?spec (JObject [(''summary'', JFloat (Finite False 25 1))])
      = Inr (?res ''2.5'')"
    by code_simp
  have blank: "assemble_section ''lens'' ?spec (JObject [(''summary'', JString ''  '')])
      = Inr (?res [])"
    by (simp add: assemble_section_def dict_get_def py_iter_def py_str_def str_strip_def
        py_isspace_def)
  have none: "assemble_section ''lens'' ?spec (JObject []) = Inr (?res [])"
    by (simp add: assemble_section_def dict_get_def py_iter_def py_str_def str_strip_def)
  show ?thesis
    using summary_stringified [OF null, of JNull]
      summary_stringified [OF number, of "JFloat (Finite False 25 1)"]
      summary_stringified [OF blank, of "JString ''  ''"]
      summary_stringified [OF none] null number blank none
    by (simp add: dict_get_def)
qed

text \<open>
  C10: when \<open>bullets\<close> is a string, the loop draws its characters one by one; each is
  stringified and trimmed, the whitespace characters drop out, and the key points are
  the first three characters that remain, each a string of its own. So \<open>abcd\<close> gives
  \<open>a\<close>, \<open>b\<close>, \<open>c\<close>.
\<close>

theorem bullets_string_by_character:
  assumes "dict_get d ''bullets'' = Some (JString s)"
  shows "map_sum id key_points (assemble_section lid spec (JObject d))
     = Inr (take 3 (map (\<lambda>c. [c]) (filter (\<lambda>c. \<not> py_isspace c) s)))"
  using assms
  by (simp add: assemble_section_def Let_def py_iter_def bullets_of_characters)

theorem bullets_string_by_character_witness:
  "dict_get [(''bullets'', JString ''abcd'')] ''bullets'' = Some (JString ''abcd'')
   \<and> map_sum id key_points
        (assemble_section ''lens'' (snd (LENSES ! 0)) (JObject [(''bullets'', JString ''abcd'')]))
      = Inr [''a'', ''b'', ''c'']
   \<and> map_sum id key_points
        (assemble_section ''lens'' (snd (LENSES ! 0)) (JObject [(''bullets'', JString '' a  bc'')]))
      = Inr [''a'', ''b'', ''c'']"
proof -
  have four: "dict_get [(''bullets'', JString ''abcd'')] ''bullets'' = Some (JString ''abcd'')"
    by (simp add: dict_get_def)
  have spaced: "dict_get [(''bullets'', JString '' a  bc'')] ''bullets'' = Some (JString '' a  bc'')"
    by (simp add: dict_get_def)
  show ?thesis
    using bullets_string_by_character [OF four, of "''lens''" "snd (LENSES ! 0)"]
      bullets_string_by_character [OF spaced, of "''lens''" "snd (LENSES ! 0)"] four
    by (simp add: py_isspace_def)
qed

section \<open>Properties of the whole run\<close>

text \<open>
  C6: if the input file is missing, or any lens of the table fails at any of its steps
  (credential, transport, HTTP status, shape of the reply, extraction, decoding, assembly),
  then \<open>main\<close> ends with an error and the writer has not run: the output file, the
  directory \<open>data\<close> and the standard output are as before.
\<close>

theorem main_failure_writes_nothing:
  assumes "load_resume w = Inl e
     \<or> (\<exists>t lens. load_resume w = Inr t \<and> lens \<in> set LENSES
            \<and> fst (generate_section loads t lens w) = Inl e)"
  shows "isl (fst (main loads w))
     \<and> output_file (snd (main loads w)) = output_file w
     \<and> data_dir (snd (main loads w)) = data_dir w
     \<and> stdout (snd (main loads w)) = stdout w"
  using assms
proof
  assume "load_resume w = Inl e"
  then show ?thesis by (simp add: main_def)
next
  assume "\<exists>t lens. load_resume w = Inr t \<and> lens \<in> set LENSES
            \<and> fst (generate_section loads t lens w) = Inl e"
  then obtain t lens where t: "load_resume w = Inr t" and mem: "lens \<in> set LENSES"
    and bad: "fst (generate_section loads t lens w) = Inl e" by blast
  obtain r w1 where run: "generate_sections loads t w = (r, w1)"
    by (cases "generate_sections loads t w")
  from mem bad have "isl (fst (sections_loop loads t LENSES w))"
    by (rule sections_loop_fails)
  with run obtain e' where r: "r = Inl e'"
    by (cases r) (simp_all add: generate_sections_def)
  obtain reqs where w1: "w1 = w\<lparr>requests := requests w @ reqs\<rparr>"
    using sections_loop_log[of loads t LENSES w] run by (auto simp: generate_sections_def)
  have "main loads w = (Inl e', w1)"
    by (simp add: main_def t run r)
  then show ?thesis by (simp add: w1)
qed

theorem main_failure_writes_nothing_witness:
  "load_resume failing_world = Inr ''Engineer.''
   \<and> fst (generate_section json_loads ''Engineer.'' (LENSES ! 2) failing_world)
       = Inl (HTTPRuntimeError 500 ''boom'')
   \<and> isl (fst (main json_loads failing_world))
   \<and> output_file (snd (main json_loads failing_world)) = Some ''old''
   \<and> load_resume (failing_world\<lparr>resume_file := None\<rparr>) = Inl FileNotFoundError
   \<and> isl (fst (main json_loads (failing_world\<lparr>resume_file := None\<rparr>)))
   \<and> output_file (snd (main json_loads (failing_world\<lparr>resume_file := None\<rparr>))) = Some ''old''"
proof -
  have present: "load_resume failing_world = Inr ''Engineer.''"
    by (simp add: load_resume_def failing_world_def stub_world_def)
  have member: "LENSES ! 2 \<in> set LENSES"
    by (simp add: LENSES_def)
  have status: "fst (generate_section json_loads ''Engineer.'' (LENSES ! 2) failing_world)
       = Inl (HTTPRuntimeError 500 ''boom'')"
    by (simp add: generate_section_def call_hugging_face_def get_token_def Let_def
        failing_world_def stub_world_def)
  have missing: "load_resume (failing_world\<lparr>resume_file := None\<rparr>) = Inl FileNotFoundError"
    by (simp add: load_resume_def)
  have old: "output_file failing_world = Some ''old''"
    by (simp add: failing_world_def)
  from present member status
  have first: "load_resume failing_world = Inl (HTTPRuntimeError 500 ''boom'')
     \<or> (\<exists>t lens. load_resume failing_world = Inr t \<and> lens \<in> set LENSES
            \<and> fst (generate_section json_loads t lens failing_world)
                = Inl (HTTPRuntimeError 500 ''boom''))"
    by blast
  from missing
  have second: "load_resume (failing_world\<lparr>resume_file := None\<rparr>) = Inl FileNotFoundError
     \<or> (\<exists>t lens. load_resume (failing_world\<lparr>resume_file := None\<rparr>) = Inr t
            \<and> lens \<in> set LENSES
            \<and> fst (generate_section json_loads t lens (failing_world\<lparr>resume_file := None\<rparr>))
                = Inl FileNotFoundError)"
    by blast
  show ?thesis
    using main_failure_writes_nothing [OF first] main_failure_writes_nothing [OF second]
      present status missing old
    by simp
qed

text \<open>
  C7: two runs that read the same resume text, the same environment and the same
  endpoint, a function of the request, end alike. Either both fail with the same error and
  write nothing, or both write a file, and the two files are the same text but for the
  value of \<open>generated_at\<close>: the same beginning, the time of the run as a JSON string, and
  the same rest.
\<close>

theorem main_deterministic:
  assumes "resume_file w1 = resume_file w2" and "environ w1 = environ w2"
    and "endpoint w1 = endpoint w2"
  shows \<open>fst (main loads w1) = fst (main loads w2)
     \<and> (if isl (fst (main loads w1))
        then output_file (snd (main loads w1)) = output_file w1
           \<and> output_file (snd (main loads w2)) = output_file w2
        else \<exists>rest.
               output_file (snd (main loads w1))
                 = Some ((''{'' @ [NL] @ ''  "generated_at": '')
                         @ encode_basestring_ascii (strftime (utcnow w1)) @ rest)
             \<and> output_file (snd (main loads w2))
                 = Some ((''{'' @ [NL] @ ''  "generated_at": '')
                         @ encode_basestring_ascii (strftime (utcnow w2)) @ rest))\<close>
proof (cases "load_resume w1")
  case (Inl e)
  with assms(1) have "load_resume w2 = Inl e" by (simp add: load_resume_def)
  with Inl show ?thesis by (simp add: main_missing_resume)
next
  case (Inr t)
  with assms(1) have second: "load_resume w2 = Inr t" by (simp add: load_resume_def)
  have same: "fst (generate_sections loads t w1) = fst (generate_sections loads t w2)"
    unfolding generate_sections_def using assms(2,3) by (rule sections_loop_service)
  show ?thesis
  proof (cases "fst (generate_sections loads t w1)")
    case (Inl e)
    with same have "fst (generate_sections loads t w2) = Inl e" by simp
    with Inl Inr second show ?thesis
      using main_failed_sections[of w1 t loads e] main_failed_sections[of w2 t loads e]
      by simp
  next
    case sections: (Inr secs)
    with same have "fst (generate_sections loads t w2) = Inr secs" by simp
    with sections Inr second
    have one: "fst (main loads w1) = Inr ()"
      and text1: "output_file (snd (main loads w1))
        = Some (json_dumps (Some 2) (output_document (strftime (utcnow w1)) secs))"
      and two: "fst (main loads w2) = Inr ()"
      and text2: "output_file (snd (main loads w2))
        = Some (json_dumps (Some 2) (output_document (strftime (utcnow w2)) secs))"
      using main_written[of w1 t loads secs] main_written[of w2 t loads secs]
      by simp_all
    obtain rest where rest: \<open>\<And>stamp. json_dumps (Some 2) (output_document stamp secs)
      = (''{'' @ [NL] @ ''  "generated_at": '') @ encode_basestring_ascii stamp @ rest\<close>
      using output_document_text[of secs] by blast
    show ?thesis
      unfolding one two text1 text2 rest by simp
  qed
qed

theorem main_deterministic_witness:
  \<open>resume_file (stub_world (Reply (Some stub_body))) = resume_file later_world
   \<and> environ (stub_world (Reply (Some stub_body))) = environ later_world
   \<and> endpoint (stub_world (Reply (Some stub_body))) = endpoint later_world
   \<and> output_file (stub_world (Reply (Some stub_body))) = None
   \<and> output_file later_world = Some ''old''
   \<and> encode_basestring_ascii (strftime (utcnow (stub_world (Reply (Some stub_body)))))
      = ''"2024-01-02T03:04:05Z"''
   \<and> encode_basestring_ascii (strftime (utcnow later_world)) = ''"2025-11-12T13:14:15Z"''
   \<and> fst (main json_loads (stub_world (Reply (Some stub_body)))) = Inr ()
   \<and> fst (main json_loads later_world) = Inr ()
   \<and> (\<exists>rest.
         output_file (snd (main json_loads (stub_world (Reply (Some stub_body)))))
           = Some ((''{'' @ [NL] @ ''  "generated_at": '') @ ''"2024-01-02T03:04:05Z"'' @ rest)
       \<and> output_file (snd (main json_loads later_world))
           = Some ((''{'' @ [NL] @ ''  "generated_at": '') @ ''"2025-11-12T13:14:15Z"'' @ rest))\<close>
proof -
  let ?w = "stub_world (Reply (Some stub_body))"
  have resume: "resume_file ?w = resume_file later_world"
    by (simp add: later_world_def)
  have env: "environ ?w = environ later_world"
    by (simp add: later_world_def)
  have service: "endpoint ?w = endpoint later_world"
    by (simp add: later_world_def)
  have files: "output_file ?w = None" "output_file later_world = Some ''old''"
    by (simp_all add: later_world_def stub_world_def)
  have stamp1: \<open>encode_basestring_ascii (strftime (utcnow ?w)) = ''"2024-01-02T03:04:05Z"''\<close>
    by code_simp
  have stamp2: \<open>encode_basestring_ascii (strftime (utcnow later_world))
      = ''"2025-11-12T13:14:15Z"''\<close>
    by code_simp
  have ran: "fst (main json_loads ?w) = Inr ()"
    using main_written[of ?w "''Engineer.''" json_loads "map stub_result LENSES"] stub_run
    by (simp add: load_resume_def stub_world_def)
  show ?thesis
    using main_deterministic [OF resume env service, of json_loads]
      resume env service files ran
    by (simp add: stamp1 stamp2)
qed

end
